theory Spec2Isabelle
  imports Complex_Main "HOL-Library.Char_ord" "HOL-Library.List_Lexorder"
    "HOL-Library.Product_Lexorder"
begin

section \<open>Data model\<close>

text \<open>
  The notebook works on one pandas DataFrame \<open>df_copy\<close>, rebound cell after cell. A
  DataFrame is modelled as the list of its rows, a row as a record of its columns.

  Conventions of the embedding:
  \<^item> \<open>float64\<close> values read from the spreadsheet are finite and are modelled as exact
    reals; rounding is not modelled. The non-finite results that numpy produces on a
    division by zero are modelled where they can arise (type \<open>float64\<close> below).
  \<^item> \<open>Quantity\<close> is an \<open>int64\<close> column on input; the threshold assignment of
    \<open>replace_with_thresholds\<close> writes floats into it, so the column is modelled as
    real from the start (an integer is embedded as itself).
  \<^item> \<open>InvoiceDate\<close> is \<open>datetime64[ns]\<close>: an integer count of nanoseconds since
    the epoch.
  \<^item> \<open>Description\<close> and \<open>Customer ID\<close> are the two columns with missing values
    (\<open>None\<close> is NaN); \<open>Customer ID\<close> holds integer-valued identifiers.
  \<^item> \<open>Invoice\<close> is a string; an invoice number is the string of its digits.
\<close>

record txn =
  Invoice :: string
  StockCode :: string
  Description :: "string option"
  Quantity :: real
  InvoiceDate :: int
  Price :: real
  Customer_ID :: "int option"
  Country :: string

text \<open>Cell 14 adds the column \<open>TotalPrice\<close>.\<close>

record etxn = txn +
  TotalPrice :: real

text \<open>
  The table after cells 18 to 20: the two group keys (columns again after
  \<open>reset_index\<close>) and the four aggregates, renamed in cell 19.
\<close>

record agg_row =
  key_Customer_ID :: int
  key_Country :: string
  monetary :: real
  CustomerLifeSpan :: real
  recency :: real
  frequency :: nat

text \<open>
  A float64 that a numpy division may produce: a finite number, an infinity, or NaN.
\<close>

datatype float64 = Fin real | PInf | NInf | NaN

text \<open>Cells 21 to 25 add five columns.\<close>

record cltv_row = agg_row +
  Average_Purchase_Value :: float64
  Average_purchase_frequency :: float64
  Customer_Value :: float64
  Average_customer_lifespan :: float64
  CLTV :: float64

section \<open>Cell 6: missing values\<close>

text \<open>\<^verbatim>\<open>df_copy.dropna(inplace=True)\<close>\<close>

definition dropna :: "txn list \<Rightarrow> txn list" where
  "dropna df = filter (\<lambda>r. Description r \<noteq> None \<and> Customer_ID r \<noteq> None) df"

section \<open>Cells 7 and 8: outlier thresholds\<close>

datatype variable = Price_col | Quantity_col

fun col :: "variable \<Rightarrow> txn \<Rightarrow> real" where
  "col Price_col r = Price r"
| "col Quantity_col r = Quantity r"

fun set_col :: "variable \<Rightarrow> real \<Rightarrow> txn \<Rightarrow> txn" where
  "set_col Price_col x r = r\<lparr>Price := x\<rparr>"
| "set_col Quantity_col x r = r\<lparr>Quantity := x\<rparr>"

text \<open>
  Modelled from the spec: \<open>Series.quantile(q)\<close> is pandas' code, not the notebook's.
  The spec names it the linear-interpolated percentile, standard definition (the
  default \<open>interpolation='linear'\<close> of pandas): on the
  sorted values \<open>v\<close> of a column of \<open>n\<close> values, with \<open>h = (n - 1) * q\<close>, the value
  \<open>v[floor h] + (h - floor h) * (v[floor h + 1] - v[floor h])\<close>. On an empty column
  pandas returns NaN, here \<open>None\<close>. The upper index is kept in range (it is reached
  only with weight 0).
\<close>

definition quantile :: "real list \<Rightarrow> real \<Rightarrow> real option" where
  "quantile xs q =
     (if xs = [] then None
      else let v = sort xs;
               h = real (length xs - 1) * q;
               lo = nat \<lfloor>h\<rfloor>;
               hi = min (lo + 1) (length xs - 1)
           in Some (v ! lo + (h - real lo) * (v ! hi - v ! lo)))"

text \<open>
  \<^verbatim>\<open>
  def outlier_thresholds(dataframe, variable):
      quartile1 = dataframe[variable].quantile(0.01)
      quartile3 = dataframe[variable].quantile(0.99)
      interquantile_range = quartile3 - quartile1
      up_limit = quartile3 + 1.5 * interquantile_range
      low_limit = quartile1 - 1.5 * interquantile_range
      return low_limit, up_limit
  \<close>
  \<open>None\<close> stands for the pair (NaN, NaN) of an empty column.
\<close>

definition outlier_thresholds :: "txn list \<Rightarrow> variable \<Rightarrow> (real \<times> real) option" where
  "outlier_thresholds dataframe v =
     (case (quantile (map (col v) dataframe) (1 / 100),
            quantile (map (col v) dataframe) (99 / 100)) of
        (Some quartile1, Some quartile3) \<Rightarrow>
          (let interquantile_range = quartile3 - quartile1;
               up_limit = quartile3 + (3 / 2) * interquantile_range;
               low_limit = quartile1 - (3 / 2) * interquantile_range
           in Some (low_limit, up_limit))
      | _ \<Rightarrow> None)"

text \<open>
  The two assignments of \<open>replace_with_thresholds\<close>, one after the other, each on the
  table the previous one left:
  \<^verbatim>\<open>
      dataframe.loc[(dataframe[variable] < low_limit), variable] = low_limit
      dataframe.loc[(dataframe[variable] > up_limit), variable] = up_limit
  \<close>
\<close>

definition assign_below :: "variable \<Rightarrow> real \<Rightarrow> txn list \<Rightarrow> txn list" where
  "assign_below v low_limit dataframe =
     map (\<lambda>r. if col v r < low_limit then set_col v low_limit r else r) dataframe"

definition assign_above :: "variable \<Rightarrow> real \<Rightarrow> txn list \<Rightarrow> txn list" where
  "assign_above v up_limit dataframe =
     map (\<lambda>r. if col v r > up_limit then set_col v up_limit r else r) dataframe"

text \<open>
  \<^verbatim>\<open>
  def replace_with_thresholds(dataframe, variable):
      low_limit, up_limit = outlier_thresholds(dataframe, variable)
      ...
  \<close>
  With NaN limits (empty table) both comparisons are False everywhere and nothing is
  assigned.
\<close>

definition replace_with_thresholds :: "txn list \<Rightarrow> variable \<Rightarrow> txn list" where
  "replace_with_thresholds dataframe v =
     (case outlier_thresholds dataframe v of
        None \<Rightarrow> dataframe
      | Some (low_limit, up_limit) \<Rightarrow>
          assign_above v up_limit (assign_below v low_limit dataframe))"

text \<open>
  Cell 8:
  \<^verbatim>\<open>
  replace_with_thresholds(df_copy, 'Price')
  replace_with_thresholds(df_copy, 'Quantity')
  \<close>
\<close>

definition cap_outliers :: "txn list \<Rightarrow> txn list" where
  "cap_outliers df =
     replace_with_thresholds (replace_with_thresholds df Price_col) Quantity_col"

section \<open>Cells 9 and 10: rare countries\<close>

text \<open>
  \<^verbatim>\<open>country = dict(df_copy['Country'].value_counts())\<close>
  The dictionary is modelled by the list of its items, in the order of
  \<open>value_counts\<close>: most frequent first, countries with equal counts in the order of
  their first row.
\<close>

definition first_seen :: "string list \<Rightarrow> string list" where
  "first_seen cs = rev (remdups (rev cs))"

definition value_counts :: "string list \<Rightarrow> (string \<times> nat) list" where
  "value_counts cs =
     sort_key (\<lambda>(c, n). - int n) (map (\<lambda>c. (c, count_list cs c)) (first_seen cs))"

text \<open>\<^verbatim>\<open>df_copy['Country'].replace({i: 'others'})\<close>\<close>

definition replace_country :: "string \<Rightarrow> string \<Rightarrow> txn list \<Rightarrow> txn list" where
  "replace_country i new df = map (\<lambda>r. if Country r = i then r\<lparr>Country := new\<rparr> else r) df"

text \<open>
  \<^verbatim>\<open>
  for i in country:
      if country[i] < 1000:
          df_copy['Country'] = df_copy['Country'].replace({i: 'others'})
  \<close>
  The loop runs over the items of the dictionary built in cell 9; the dictionary is
  not updated while the table is.
\<close>

fun country_loop :: "(string \<times> nat) list \<Rightarrow> txn list \<Rightarrow> txn list" where
  "country_loop [] df = df"
| "country_loop ((i, n) # rest) df =
     country_loop rest (if n < 1000 then replace_country i ''others'' df else df)"

definition fold_rare_countries :: "txn list \<Rightarrow> txn list" where
  "fold_rare_countries df = country_loop (value_counts (map Country df)) df"

section \<open>Cells 12 to 14: cancellations, prices, line totals\<close>

text \<open>\<^verbatim>\<open>df_copy = df_copy[~df_copy['Invoice'].str.contains('C', na=False)]\<close>\<close>

definition drop_cancellations :: "txn list \<Rightarrow> txn list" where
  "drop_cancellations df = filter (\<lambda>r. CHR ''C'' \<notin> set (Invoice r)) df"

text \<open>\<^verbatim>\<open>df_copy = df_copy[df_copy['Price'] > 0]\<close>\<close>

definition drop_nonpositive_price :: "txn list \<Rightarrow> txn list" where
  "drop_nonpositive_price df = filter (\<lambda>r. Price r > 0) df"

text \<open>\<^verbatim>\<open>df_copy['TotalPrice'] = df_copy.Price * df_copy.Quantity\<close>\<close>

definition add_TotalPrice :: "txn list \<Rightarrow> etxn list" where
  "add_TotalPrice df = map (\<lambda>r. txn.extend r (etxn.fields (Price r * Quantity r))) df"

text \<open>The table that cell 18 groups: cells 6 to 14 in the notebook's order.\<close>

definition cleaned :: "txn list \<Rightarrow> etxn list" where
  "cleaned df =
     add_TotalPrice (drop_nonpositive_price (drop_cancellations
       (fold_rare_countries (cap_outliers (dropna df)))))"

section \<open>Cells 17 to 20: grouping and aggregating\<close>

text \<open>\<^verbatim>\<open>today_date = dt.datetime(2011, 12, 11)\<close>, in nanoseconds since the epoch.\<close>

definition ns_per_day :: int where
  "ns_per_day = 86400000000000"

definition today_date :: int where
  "today_date = 15319 * ns_per_day"

text \<open>\<open>Timedelta.days\<close>: whole days, rounded towards minus infinity.\<close>

definition days :: "int \<Rightarrow> int" where
  "days delta = delta div ns_per_day"

text \<open>
  \<^verbatim>\<open>
  df_copy = df_copy.groupby(['Customer ID', 'Country']).agg({'TotalPrice':'sum',
                  'InvoiceDate': [lambda date: (date.max()-date.min()).days,
                                  lambda date: (today_date - date.max()).days],
                  'Invoice': lambda Invoice: Invoice.nunique()})
  \<close>
  \<open>groupby\<close> leaves out rows with a missing key and yields the groups in the sorted
  order of their keys. A group is never empty; it is passed as its first row and the
  rest. A table without rows has no group, and the result has no row.
\<close>

definition group_key :: "etxn \<Rightarrow> (int \<times> string) option" where
  "group_key r = (case Customer_ID r of None \<Rightarrow> None | Some c \<Rightarrow> Some (c, Country r))"

definition group_keys :: "etxn list \<Rightarrow> (int \<times> string) list" where
  "group_keys df = sort (remdups (List.map_filter group_key df))"

definition group_rows :: "etxn list \<Rightarrow> int \<times> string \<Rightarrow> etxn list" where
  "group_rows df k = filter (\<lambda>r. group_key r = Some k) df"

definition series_max :: "int \<Rightarrow> int list \<Rightarrow> int" where
  "series_max d ds = fold max ds d"

definition series_min :: "int \<Rightarrow> int list \<Rightarrow> int" where
  "series_min d ds = fold min ds d"

definition nunique :: "'a list \<Rightarrow> nat" where
  "nunique xs = length (remdups xs)"

text \<open>
  One row of the aggregated table, with the columns already renamed as in cell 19
  (\<open>CustomerLifeSpan\<close> and \<open>recency\<close> are whole days at this point).
\<close>

definition agg_group :: "int \<times> string \<Rightarrow> etxn \<Rightarrow> etxn list \<Rightarrow> agg_row" where
  "agg_group k r rs =
     (let date = map InvoiceDate rs;
          date_max = series_max (InvoiceDate r) date;
          date_min = series_min (InvoiceDate r) date
      in \<lparr> key_Customer_ID = fst k,
           key_Country = snd k,
           monetary = sum_list (map TotalPrice (r # rs)),
           CustomerLifeSpan = real_of_int (days (date_max - date_min)),
           recency = real_of_int (days (today_date - date_max)),
           frequency = nunique (map Invoice (r # rs)) \<rparr>)"

definition groupby_agg :: "etxn list \<Rightarrow> agg_row list" where
  "groupby_agg df =
     concat (map (\<lambda>k. case group_rows df k of [] \<Rightarrow> [] | r # rs \<Rightarrow> [agg_group k r rs])
                 (group_keys df))"

text \<open>
  Cell 20:
  \<^verbatim>\<open>
  df_copy = df_copy[df_copy['frequency'] > 1]
  df_copy['recency'] = df_copy['recency'] / 7
  df_copy['CustomerLifeSpan'] = df_copy['CustomerLifeSpan'] / 7
  \<close>
  When cell 18 found no group at all, none of its lambdas has run and the two date
  columns of the (empty) table are still \<open>datetime64\<close>: the filter passes, and the
  first division raises \<open>TypeError\<close>. With at least one group the columns hold
  whole days and the cell does not raise, also when the filter leaves no row.
\<close>

datatype py_error = TypeError

definition frequency_filter :: "agg_row list \<Rightarrow> agg_row list" where
  "frequency_filter df = filter (\<lambda>r. frequency r > 1) df"

definition to_weeks :: "agg_row list \<Rightarrow> agg_row list" where
  "to_weeks df =
     map (\<lambda>r. r\<lparr>recency := recency r / 7, CustomerLifeSpan := CustomerLifeSpan r / 7\<rparr>) df"

definition cell_20 :: "agg_row list \<Rightarrow> py_error + agg_row list" where
  "cell_20 df = (if df = [] then Inl TypeError else Inr (to_weeks (frequency_filter df)))"

definition aggregate :: "etxn list \<Rightarrow> py_error + agg_row list" where
  "aggregate df = cell_20 (groupby_agg df)"

section \<open>Cells 21 to 25: the CLTV metrics\<close>

text \<open>
  numpy's true division of two finite numbers: a zero divisor gives NaN for 0/0 and a
  signed infinity otherwise, with a warning that cell 1 silences; no exception.
\<close>

definition np_div :: "real \<Rightarrow> real \<Rightarrow> float64" where
  "np_div a b =
     (if b = 0 then (if a = 0 then NaN else if a > 0 then PInf else NInf)
      else Fin (a / b))"

text \<open>The product of two float64 values (IEEE 754).\<close>

fun np_mul :: "float64 \<Rightarrow> float64 \<Rightarrow> float64" where
  "np_mul NaN _ = NaN"
| "np_mul _ NaN = NaN"
| "np_mul (Fin a) (Fin b) = Fin (a * b)"
| "np_mul (Fin a) PInf = (if a = 0 then NaN else if a > 0 then PInf else NInf)"
| "np_mul (Fin a) NInf = (if a = 0 then NaN else if a > 0 then NInf else PInf)"
| "np_mul PInf (Fin b) = (if b = 0 then NaN else if b > 0 then PInf else NInf)"
| "np_mul NInf (Fin b) = (if b = 0 then NaN else if b > 0 then NInf else PInf)"
| "np_mul PInf PInf = PInf"
| "np_mul PInf NInf = NInf"
| "np_mul NInf PInf = NInf"
| "np_mul NInf NInf = PInf"

text \<open>
  Cell 22, the right-hand side:
  \<^verbatim>\<open>df_copy['frequency'].sum() / df_copy['Customer ID'].nunique()\<close>
\<close>

definition avg_purchase_frequency :: "agg_row list \<Rightarrow> float64" where
  "avg_purchase_frequency df =
     np_div (real (sum_list (map frequency df)))
            (real (nunique (map key_Customer_ID df)))"

text \<open>
  Cell 24, the right-hand side:
  \<^verbatim>\<open>df_copy['CustomerLifeSpan'].sum() / df_copy['Customer ID'].nunique()\<close>
\<close>

definition avg_customer_lifespan :: "agg_row list \<Rightarrow> float64" where
  "avg_customer_lifespan df =
     np_div (sum_list (map CustomerLifeSpan df))
            (real (nunique (map key_Customer_ID df)))"

text \<open>
  Cells 21 to 25 in order. Cells 22 and 24 assign one scalar to a whole column; the
  other three work row by row.
  \<^verbatim>\<open>
  df_copy['Average Purchase Value'] = df_copy['monetary'] / df_copy['frequency']
  df_copy['Average purchase frequency'] = ... (cell 22)
  df_copy['Customer Value'] = df_copy['Average Purchase Value'] * df_copy['Average purchase frequency']
  df_copy['Average customer lifespan'] = ... (cell 24)
  df_copy['CLTV'] = df_copy['Customer Value'] * df_copy['Average customer lifespan']
  \<close>
\<close>

definition metric_row :: "float64 \<Rightarrow> float64 \<Rightarrow> agg_row \<Rightarrow> cltv_row" where
  "metric_row apf acl r =
     (let apv = np_div (monetary r) (real (frequency r));
          cv = np_mul apv apf
      in agg_row.extend r (cltv_row.fields apv apf cv acl (np_mul cv acl)))"

definition metric_engine :: "agg_row list \<Rightarrow> cltv_row list" where
  "metric_engine df =
     map (metric_row (avg_purchase_frequency df) (avg_customer_lifespan df)) df"

section \<open>The whole notebook\<close>

text \<open>An exception of cell 20 ends the run; cells 21 to 25 follow otherwise.\<close>

definition pipeline :: "txn list \<Rightarrow> py_error + cltv_row list" where
  "pipeline df =
     (case aggregate (cleaned df) of
        Inl e \<Rightarrow> Inl e
      | Inr a \<Rightarrow> Inr (metric_engine a))"

section \<open>Auxiliary definitions\<close>

text \<open>
  Notions used to state and prove the properties below; they are not part of the
  notebook. \<open>row_key\<close> is the pair of group keys of an aggregated row,
  \<open>group_row\<close> the aggregated row of one key, \<open>weeks_row\<close> the row-wise effect of
  the two divisions of cell 20, \<open>aggregate_rows\<close> the table that cell 20 leaves when
  it does not raise, and \<open>output_rows\<close> the table that cell 25 leaves then.
\<close>

definition row_key :: "'a agg_row_scheme \<Rightarrow> int \<times> string" where
  "row_key r = (key_Customer_ID r, key_Country r)"

definition group_row :: "etxn list \<Rightarrow> int \<times> string \<Rightarrow> agg_row" where
  "group_row df k = agg_group k (hd (group_rows df k)) (tl (group_rows df k))"

definition weeks_row :: "agg_row \<Rightarrow> agg_row" where
  "weeks_row r = r\<lparr>recency := recency r / 7, CustomerLifeSpan := CustomerLifeSpan r / 7\<rparr>"

definition aggregate_rows :: "etxn list \<Rightarrow> agg_row list" where
  "aggregate_rows df = to_weeks (frequency_filter (groupby_agg df))"

definition output_rows :: "txn list \<Rightarrow> cltv_row list" where
  "output_rows df = metric_engine (aggregate_rows (cleaned df))"

text \<open>
  \<open>clip\<close> is the clamp to an interval; \<open>lerp\<close> is the interpolation between two
  neighbours of a sorted list that \<open>quantile\<close> computes.
\<close>

definition clip :: "real \<Rightarrow> real \<Rightarrow> real \<Rightarrow> real" where
  "clip low up x = (if x < low then low else if x > up then up else x)"

definition lerp :: "real list \<Rightarrow> real \<Rightarrow> real" where
  "lerp v h = v ! nat \<lfloor>h\<rfloor> +
     (h - real (nat \<lfloor>h\<rfloor>)) * (v ! min (nat \<lfloor>h\<rfloor> + 1) (length v - 1) - v ! nat \<lfloor>h\<rfloor>)"

text \<open>
  Two rows are the same line item when they agree on every column that no cell
  rewrites: all but Quantity, Price and Country.
\<close>

definition same_line :: "'a txn_scheme \<Rightarrow> 'b txn_scheme \<Rightarrow> bool" where
  "same_line a b \<longleftrightarrow>
     Invoice a = Invoice b \<and> StockCode a = StockCode b \<and> Description a = Description b \<and>
     InvoiceDate a = InvoiceDate b \<and> Customer_ID a = Customer_ID b"

section \<open>Example tables\<close>

text \<open>One line item; stock code and description are the same on every example row.\<close>

definition line :: "string \<Rightarrow> real \<Rightarrow> int \<Rightarrow> real \<Rightarrow> int option \<Rightarrow> string \<Rightarrow> txn" where
  "line iv q d p c co =
     \<lparr>Invoice = iv, StockCode = ''85123A'', Description = Some ''HOLDER'', Quantity = q,
      InvoiceDate = d, Price = p, Customer_ID = c, Country = co\<rparr>"

text \<open>
  A raw table of seven line items. Customer 100 has three invoices, on 2011-11-20,
  2011-11-27 and 2011-12-04 (days 15298, 15305 and 15312 since the epoch), of 100
  each, one cancellation and one line with price 0; customer 200 has one invoice;
  the last line has no customer.
\<close>

definition retail_example :: "txn list" where
  "retail_example =
     [line ''536365'' 10 (15298 * ns_per_day) 10 (Some 100) ''France'',
      line ''536366'' 10 (15305 * ns_per_day) 10 (Some 100) ''France'',
      line ''536367'' 10 (15312 * ns_per_day) 10 (Some 100) ''France'',
      line ''C536379'' (- 1) (15312 * ns_per_day) 10 (Some 100) ''France'',
      line ''536370'' 5 (15300 * ns_per_day) 0 (Some 100) ''France'',
      line ''536371'' 3 (15301 * ns_per_day) 4 (Some 200) ''Spain'',
      line ''536372'' 2 (15302 * ns_per_day) 4 None ''Spain'']"

text \<open>Customer 300 with two invoices a week apart, both with negative quantities.\<close>

definition returns_example :: "txn list" where
  "returns_example =
     [line ''536380'' (- 5) (15298 * ns_per_day) 2 (Some 300) ''Spain'',
      line ''536381'' (- 3) (15305 * ns_per_day) 2 (Some 300) ''Spain'']"

text \<open>Customer 200 with two line items on one invoice.\<close>

definition one_off_example :: "txn list" where
  "one_off_example =
     [line ''536371'' 3 (15301 * ns_per_day) 4 (Some 200) ''Spain'',
      line ''536371'' 1 (15301 * ns_per_day) 6 (Some 200) ''Spain'']"

text \<open>
  Sixty-two line items: sixty-one of quantity 1 and one of quantity \<open>x\<close>, all of
  price 2.
\<close>

definition spike_table :: "real \<Rightarrow> txn list" where
  "spike_table x =
     replicate 61 (line ''536365'' 1 (15298 * ns_per_day) 2 (Some 100) ''France'') @
     [line ''536366'' x (15305 * ns_per_day) 2 (Some 100) ''France'']"

text \<open>
  The same table followed by one line of another customer, on a cancellation
  invoice.
\<close>

definition spike_cancel_example :: "txn list" where
  "spike_cancel_example =
     spike_table 101 @ [line ''C536379'' 101 (15305 * ns_per_day) 2 (Some 200) ''France'']"

text \<open>
  What cleaning leaves of these two tables: the sixty-two lines of customer 100,
  relabeled, with the last quantity \<open>x\<close> as capping left it.
\<close>

definition spike_cleaned :: "real \<Rightarrow> etxn list" where
  "spike_cleaned x =
     replicate 61 (txn.extend (line ''536365'' 1 (15298 * ns_per_day) 2 (Some 100) ''others'')
                    (etxn.fields 2)) @
     [txn.extend (line ''536366'' x (15305 * ns_per_day) 2 (Some 100) ''others'')
        (etxn.fields (2 * x))]"

text \<open>
  A thousand line items from Malta, the last one on a cancellation invoice.
\<close>

definition malta_example :: "txn list" where
  "malta_example =
     replicate 999 (line ''536365'' 1 (15298 * ns_per_day) 2 (Some 100) ''Malta'') @
     [line ''C536379'' 1 (15298 * ns_per_day) 2 (Some 100) ''Malta'']"

text \<open>
  An aggregated table with three rows: customer 7 under two countries, customer 8
  under one. Two distinct customers, three rows.
\<close>

definition agg_example :: "agg_row list" where
  "agg_example =
     [\<lparr>key_Customer_ID = 7, key_Country = ''France'', monetary = 100,
       CustomerLifeSpan = 4, recency = 1, frequency = 2\<rparr>,
      \<lparr>key_Customer_ID = 7, key_Country = ''Spain'', monetary = 60,
       CustomerLifeSpan = 2, recency = 1, frequency = 3\<rparr>,
      \<lparr>key_Customer_ID = 8, key_Country = ''France'', monetary = 90,
       CustomerLifeSpan = 6, recency = 2, frequency = 5\<rparr>]"

section \<open>The metrics of cells 21 to 25\<close>

lemma nunique_card: "nunique xs = card (set xs)"
  by (simp add: nunique_def length_remdups_card_conv)

lemma nunique_pos: "xs \<noteq> [] \<Longrightarrow> 0 < nunique xs"
  by (simp add: nunique_card card_gt_0_iff)

lemma length_metric_engine: "length (metric_engine df) = length df"
  by (simp add: metric_engine_def)

lemma metric_engine_nth:
  "i < length df \<Longrightarrow>
     metric_engine df ! i =
       metric_row (avg_purchase_frequency df) (avg_customer_lifespan df) (df ! i)"
  by (simp add: metric_engine_def)

lemma avg_purchase_frequency_Fin:
  "df \<noteq> [] \<Longrightarrow>
     avg_purchase_frequency df =
       Fin (real (sum_list (map frequency df)) / real (card (key_Customer_ID ` set df)))"
  using nunique_pos [of "map key_Customer_ID df"]
  by (simp add: avg_purchase_frequency_def np_div_def nunique_card)

lemma avg_customer_lifespan_Fin:
  "df \<noteq> [] \<Longrightarrow>
     avg_customer_lifespan df =
       Fin (sum_list (map CustomerLifeSpan df) / real (card (key_Customer_ID ` set df)))"
  using nunique_pos [of "map key_Customer_ID df"]
  by (simp add: avg_customer_lifespan_def np_div_def nunique_card)

lemma metric_row_fields:
  "key_Customer_ID (metric_row apf acl r) = key_Customer_ID r"
  "key_Country (metric_row apf acl r) = key_Country r"
  "monetary (metric_row apf acl r) = monetary r"
  "CustomerLifeSpan (metric_row apf acl r) = CustomerLifeSpan r"
  "recency (metric_row apf acl r) = recency r"
  "frequency (metric_row apf acl r) = frequency r"
  "Average_Purchase_Value (metric_row apf acl r) = np_div (monetary r) (real (frequency r))"
  "Average_purchase_frequency (metric_row apf acl r) = apf"
  "Customer_Value (metric_row apf acl r) = np_mul (np_div (monetary r) (real (frequency r))) apf"
  "Average_customer_lifespan (metric_row apf acl r) = acl"
  "CLTV (metric_row apf acl r) =
     np_mul (np_mul (np_div (monetary r) (real (frequency r))) apf) acl"
  by (simp_all add: metric_row_def Let_def agg_row.defs cltv_row.defs)

text \<open>
  C1. On a filtered aggregate table (every row has frequency above 1) the metric
  engine keeps the rows and their aggregates, and row \<open>i\<close> of its output carries:
  Average Purchase Value = monetary / frequency of that row; Average purchase
  frequency = sum of frequency over all rows / number of distinct Customer IDs (not
  the number of rows), the same on every row; Customer Value = the product of the
  two; Average customer lifespan = sum of CustomerLifeSpan over all rows / number of
  distinct Customer IDs; CLTV = Customer Value * Average customer lifespan. All
  five are finite, so the two product relations hold among the stored columns.
  Numbers are exact reals.
\<close>

theorem metric_engine_formulas:
  assumes filtered: "\<forall>r\<in>set df. 1 < frequency r" and i: "i < length df"
  defines "n \<equiv> real (card (key_Customer_ID ` set df))"
  defines "apf \<equiv> real (sum_list (map frequency df)) / n"
  defines "acl \<equiv> sum_list (map CustomerLifeSpan df) / n"
  defines "apv \<equiv> monetary (df ! i) / real (frequency (df ! i))"
  shows "length (metric_engine df) = length df \<and>
         key_Customer_ID (metric_engine df ! i) = key_Customer_ID (df ! i) \<and>
         key_Country (metric_engine df ! i) = key_Country (df ! i) \<and>
         monetary (metric_engine df ! i) = monetary (df ! i) \<and>
         frequency (metric_engine df ! i) = frequency (df ! i) \<and>
         CustomerLifeSpan (metric_engine df ! i) = CustomerLifeSpan (df ! i) \<and>
         recency (metric_engine df ! i) = recency (df ! i) \<and>
         Average_Purchase_Value (metric_engine df ! i) = Fin apv \<and>
         Average_purchase_frequency (metric_engine df ! i) = Fin apf \<and>
         Customer_Value (metric_engine df ! i) = Fin (apv * apf) \<and>
         Average_customer_lifespan (metric_engine df ! i) = Fin acl \<and>
         CLTV (metric_engine df ! i) = Fin (apv * apf * acl) \<and>
         Customer_Value (metric_engine df ! i) =
           np_mul (Average_Purchase_Value (metric_engine df ! i))
                  (Average_purchase_frequency (metric_engine df ! i)) \<and>
         CLTV (metric_engine df ! i) =
           np_mul (Customer_Value (metric_engine df ! i))
                  (Average_customer_lifespan (metric_engine df ! i))"
proof -
  from i have ne: "df \<noteq> []" by auto
  from filtered i have "frequency (df ! i) \<noteq> 0"
    by (metis nth_mem not_less_zero)
  then have apv: "np_div (monetary (df ! i)) (real (frequency (df ! i))) = Fin apv"
    by (simp add: np_div_def apv_def)
  show ?thesis
    using i apv
    by (simp add: length_metric_engine metric_engine_nth metric_row_fields
                  avg_purchase_frequency_Fin [OF ne] avg_customer_lifespan_Fin [OF ne]
                  apf_def acl_def n_def)
qed

lemma agg_example_ids: "card (key_Customer_ID ` set agg_example) = 2"
  by (simp add: agg_example_def)

text \<open>
  On the example table the divisor is 2 (distinct customers), not 3 (rows): the
  average purchase frequency is 10 / 2 = 5 and the average lifespan 12 / 2 = 6.
\<close>

theorem metric_engine_formulas_witness:
  "list_all (\<lambda>r. 1 < frequency r) agg_example \<and> (1::nat) < length agg_example \<and>
   length (metric_engine agg_example) = 3 \<and>
   Average_Purchase_Value (metric_engine agg_example ! 1) = Fin 20 \<and>
   Average_purchase_frequency (metric_engine agg_example ! 1) = Fin 5 \<and>
   Customer_Value (metric_engine agg_example ! 1) = Fin 100 \<and>
   Average_customer_lifespan (metric_engine agg_example ! 1) = Fin 6 \<and>
   CLTV (metric_engine agg_example ! 1) = Fin 600"
proof -
  have f: "\<forall>r\<in>set agg_example. 1 < frequency r"
    by (simp add: agg_example_def)
  have l: "(1::nat) < length agg_example"
    by (simp add: agg_example_def)
  have row: "agg_example ! Suc 0 =
      \<lparr>key_Customer_ID = 7, key_Country = ''Spain'', monetary = 60,
       CustomerLifeSpan = 2, recency = 1, frequency = 3\<rparr>"
    by (simp add: agg_example_def)
  have sums: "sum_list (map frequency agg_example) = 10"
             "sum_list (map CustomerLifeSpan agg_example) = 12"
             "length agg_example = 3"
    by (simp_all add: agg_example_def)
  show ?thesis
    using metric_engine_formulas [OF f l] f l
    by (simp add: agg_example_ids row sums list_all_iff)
qed

section \<open>Line totals\<close>

lemma add_TotalPrice_fields:
  "Invoice (txn.extend r (etxn.fields t)) = Invoice r"
  "StockCode (txn.extend r (etxn.fields t)) = StockCode r"
  "Description (txn.extend r (etxn.fields t)) = Description r"
  "Quantity (txn.extend r (etxn.fields t)) = Quantity r"
  "InvoiceDate (txn.extend r (etxn.fields t)) = InvoiceDate r"
  "Price (txn.extend r (etxn.fields t)) = Price r"
  "Customer_ID (txn.extend r (etxn.fields t)) = Customer_ID r"
  "Country (txn.extend r (etxn.fields t)) = Country r"
  "TotalPrice (txn.extend r (etxn.fields t)) = t"
  by (simp_all add: txn.defs etxn.defs)

section \<open>Outlier capping: cells 7 and 8\<close>

lemma quantile_lerp:
  "xs \<noteq> [] \<Longrightarrow> quantile xs q = Some (lerp (sort xs) (real (length xs - 1) * q))"
  by (simp add: quantile_def lerp_def Let_def)

lemma lerp_between:
  assumes "sorted v" "0 \<le> h" "h \<le> real (length v - 1)" "v \<noteq> []"
  shows "v ! nat \<lfloor>h\<rfloor> \<le> lerp v h \<and>
         lerp v h \<le> v ! min (nat \<lfloor>h\<rfloor> + 1) (length v - 1)"
proof -
  let ?lo = "nat \<lfloor>h\<rfloor>" and ?hi = "min (nat \<lfloor>h\<rfloor> + 1) (length v - 1)"
  have lo: "real ?lo = of_int \<lfloor>h\<rfloor>" using assms(2) by simp
  have f0: "0 \<le> h - real ?lo" and f1: "h - real ?lo \<le> 1"
    unfolding lo by linarith+
  have "\<lfloor>h\<rfloor> \<le> int (length v - 1)" using assms(3) by (simp add: floor_le_iff) 
  then have lo_le: "?lo \<le> length v - 1" by linarith
  then have "?lo \<le> ?hi" by simp
  moreover have "?hi < length v"
  proof -
    have "0 < length v" using assms(4) by simp
    moreover have "?hi \<le> length v - 1" by simp
    ultimately show ?thesis by linarith
  qed
  ultimately have le: "v ! ?lo \<le> v ! ?hi"
    using assms(1) by (simp add: sorted_nth_mono)
  define d where "d = v ! ?hi - v ! ?lo"
  define f where "f = h - real ?lo"
  have d: "0 \<le> d" using le by (simp add: d_def)
  have "0 \<le> f * d" using f0 d unfolding f_def by simp
  moreover have "f * d \<le> d"
    using mult_right_mono [of f 1 d] f1 d unfolding f_def by simp
  ultimately show ?thesis
    unfolding lerp_def d_def [symmetric] f_def [symmetric] using d_def by linarith
qed

lemma lerp_mono:
  assumes "sorted v" "0 \<le> h" "h \<le> h'" "h' \<le> real (length v - 1)" "v \<noteq> []"
  shows "lerp v h \<le> lerp v h'"
proof -
  let ?lo = "nat \<lfloor>h\<rfloor>" and ?lo' = "nat \<lfloor>h'\<rfloor>"
  let ?hi = "min (?lo + 1) (length v - 1)"
  have b: "v ! ?lo \<le> lerp v h \<and> lerp v h \<le> v ! ?hi"
    using assms by (intro lerp_between) simp_all
  have b': "v ! ?lo' \<le> lerp v h' \<and> lerp v h' \<le> v ! min (?lo' + 1) (length v - 1)"
    using assms by (intro lerp_between) simp_all
  have mono: "?lo \<le> ?lo'" using assms(3) by (simp add: floor_mono nat_mono)
  have "\<lfloor>h'\<rfloor> \<le> int (length v - 1)" using assms(4) by (simp add: floor_le_iff)
  moreover have "0 < length v" using assms(5) by simp
  ultimately have lo'_lt: "?lo' < length v" by linarith
  show ?thesis
  proof (cases "?lo = ?lo'")
    case True
    have le: "v ! ?lo \<le> v ! ?hi"
      using b by linarith
    have "lerp v h' - lerp v h = (h' - h) * (v ! ?hi - v ! ?lo)"
      unfolding lerp_def True [symmetric] by (simp add: algebra_simps)
    moreover have "0 \<le> (h' - h) * (v ! ?hi - v ! ?lo)"
      using assms(3) le by simp
    ultimately show ?thesis by linarith
  next
    case False
    with mono have "?hi \<le> ?lo'" by simp
    then have "v ! ?hi \<le> v ! ?lo'"
      using assms(1) lo'_lt by (simp add: sorted_nth_mono)
    with b b' show ?thesis by linarith
  qed
qed

lemma quantile_mono:
  assumes "quantile xs q = Some a" "quantile xs q' = Some b" "0 \<le> q" "q \<le> q'" "q' \<le> 1"
  shows "a \<le> b"
proof -
  from assms(1) have ne: "xs \<noteq> []" by (auto simp: quantile_def)
  let ?m = "real (length xs - 1)"
  have "lerp (sort xs) (?m * q) \<le> lerp (sort xs) (?m * q')"
  proof (rule lerp_mono)
    show "sorted (sort xs)" by simp
    show "0 \<le> ?m * q" using assms(3) by simp
    show "?m * q \<le> ?m * q'" using assms(4) by (simp add: mult_left_mono)
    show "?m * q' \<le> real (length (sort xs) - 1)"
      using assms(5) by (simp add: mult_left_le)
    show "sort xs \<noteq> []" using ne by (metis length_sort length_0_conv)
  qed
  with assms(1,2) show ?thesis by (simp add: quantile_lerp [OF ne])
qed

lemma quantile_Some: "xs \<noteq> [] \<Longrightarrow> \<exists>y. quantile xs q = Some y"
  by (simp add: quantile_lerp)

lemma outlier_thresholds_Some:
  assumes "dataframe \<noteq> []"
  shows "\<exists>q1 q3. quantile (map (col v) dataframe) (1 / 100) = Some q1 \<and>
                 quantile (map (col v) dataframe) (99 / 100) = Some q3 \<and> q1 \<le> q3 \<and>
                 outlier_thresholds dataframe v =
                   Some (q1 - 3 / 2 * (q3 - q1), q3 + 3 / 2 * (q3 - q1))"
proof -
  from assms have ne: "map (col v) dataframe \<noteq> []" by simp
  from quantile_Some [OF ne] obtain q1 where q1: "quantile (map (col v) dataframe) (1 / 100) = Some q1"
    by blast
  from quantile_Some [OF ne] obtain q3 where q3: "quantile (map (col v) dataframe) (99 / 100) = Some q3"
    by blast
  have "q1 \<le> q3" by (rule quantile_mono [OF q1 q3]) simp_all
  then show ?thesis using q1 q3 by (simp add: outlier_thresholds_def Let_def)
qed

lemma outlier_thresholds_ordered:
  assumes "outlier_thresholds dataframe v = Some (low, up)"
  shows "low \<le> up"
proof -
  from assms have "dataframe \<noteq> []"
    by (auto simp: outlier_thresholds_def quantile_def)
  from outlier_thresholds_Some [OF this, of v] obtain q1 q3 where
    "q1 \<le> q3" "outlier_thresholds dataframe v =
                   Some (q1 - 3 / 2 * (q3 - q1), q3 + 3 / 2 * (q3 - q1))"
    by blast
  with assms have "q1 \<le> q3" "low = q1 - 3 / 2 * (q3 - q1)" "up = q3 + 3 / 2 * (q3 - q1)"
    by simp_all
  then show ?thesis by (simp add: field_simps)
qed

lemma outlier_thresholds_Nil [simp]: "outlier_thresholds [] v = None"
  by (simp add: outlier_thresholds_def quantile_def)

lemma col_set_col [simp]: "col v (set_col v x r) = x"
  by (cases v) simp_all

lemma set_col_col [simp]: "set_col v (col v r) r = r"
  by (cases v) simp_all

lemma clamp_row:
  assumes "low \<le> up"
  shows "(\<lambda>r. if col v r > up then set_col v up r else r)
           (if col v r < low then set_col v low r else r) = set_col v (clip low up (col v r)) r"
  using assms by (auto simp: clip_def)

lemma replace_with_thresholds_map:
  assumes "outlier_thresholds dataframe v = Some (low, up)"
  shows "replace_with_thresholds dataframe v =
           map (\<lambda>r. set_col v (clip low up (col v r)) r) dataframe"
proof -
  have "low \<le> up" using assms by (rule outlier_thresholds_ordered)
  then show ?thesis
    by (simp add: replace_with_thresholds_def assms assign_above_def assign_below_def
          o_def clamp_row)
qed

lemma length_replace_with_thresholds [simp]:
  "length (replace_with_thresholds dataframe v) = length dataframe"
  by (cases "outlier_thresholds dataframe v")
     (auto simp: replace_with_thresholds_def assign_above_def assign_below_def)

lemma length_cap_outliers [simp]: "length (cap_outliers df) = length df"
  by (simp add: cap_outliers_def)

lemma other_col_replace_with_thresholds:
  assumes "w \<noteq> v"
  shows "map (col w) (replace_with_thresholds dataframe v) = map (col w) dataframe"
proof (cases "outlier_thresholds dataframe v")
  case None
  then show ?thesis by (simp add: replace_with_thresholds_def)
next
  case (Some p)
  obtain low up where "p = (low, up)" by (cases p)
  with Some have "replace_with_thresholds dataframe v =
           map (\<lambda>r. set_col v (clip low up (col v r)) r) dataframe"
    by (simp add: replace_with_thresholds_map)
  moreover have "col w (set_col v x r) = col w r" for x r
    using assms by (cases v; cases w) simp_all
  ultimately show ?thesis by (simp add: o_def)
qed

lemma cap_outliers_rowwise:
  assumes ne: "df \<noteq> []"
  shows "\<exists>q1 q3 q1' q3'.
           quantile (map Price df) (1 / 100) = Some q1 \<and>
           quantile (map Price df) (99 / 100) = Some q3 \<and>
           quantile (map Quantity df) (1 / 100) = Some q1' \<and>
           quantile (map Quantity df) (99 / 100) = Some q3' \<and>
           q1 \<le> q3 \<and> q1' \<le> q3' \<and>
           (\<forall>i<length df. cap_outliers df ! i = (df ! i)
             \<lparr>Price := clip (q1 - 3 / 2 * (q3 - q1)) (q3 + 3 / 2 * (q3 - q1)) (Price (df ! i)),
              Quantity := clip (q1' - 3 / 2 * (q3' - q1')) (q3' + 3 / 2 * (q3' - q1'))
                            (Quantity (df ! i))\<rparr>)"
proof -
  let ?d1 = "replace_with_thresholds df Price_col"
  have colP: "map (col Price_col) df = map Price df" and colQ: "map (col Quantity_col) df = map Quantity df"
    by simp_all
  from outlier_thresholds_Some [OF ne, of Price_col] obtain q1 q3 where
    p: "quantile (map Price df) (1 / 100) = Some q1" "quantile (map Price df) (99 / 100) = Some q3"
       "q1 \<le> q3"
       "outlier_thresholds df Price_col = Some (q1 - 3 / 2 * (q3 - q1), q3 + 3 / 2 * (q3 - q1))"
    unfolding colP by blast
  have ne1: "?d1 \<noteq> []" using ne by (metis length_replace_with_thresholds length_0_conv)
  have same: "map (col Quantity_col) ?d1 = map Quantity df"
    using other_col_replace_with_thresholds [of Quantity_col Price_col df] by simp
  from outlier_thresholds_Some [OF ne1, of Quantity_col] obtain q1' q3' where
    q: "quantile (map Quantity df) (1 / 100) = Some q1'"
       "quantile (map Quantity df) (99 / 100) = Some q3'" "q1' \<le> q3'"
       "outlier_thresholds ?d1 Quantity_col =
          Some (q1' - 3 / 2 * (q3' - q1'), q3' + 3 / 2 * (q3' - q1'))"
    unfolding same by blast
  have "cap_outliers df ! i = (df ! i)
             \<lparr>Price := clip (q1 - 3 / 2 * (q3 - q1)) (q3 + 3 / 2 * (q3 - q1)) (Price (df ! i)),
              Quantity := clip (q1' - 3 / 2 * (q3' - q1')) (q3' + 3 / 2 * (q3' - q1'))
                            (Quantity (df ! i))\<rparr>" if "i < length df" for i
  proof -
    have e1: "?d1 = map (\<lambda>r. set_col Price_col
        (clip (q1 - 3 / 2 * (q3 - q1)) (q3 + 3 / 2 * (q3 - q1)) (col Price_col r)) r) df"
      by (rule replace_with_thresholds_map [OF p(4)])
    have e2: "cap_outliers df = map (\<lambda>r. set_col Quantity_col
        (clip (q1' - 3 / 2 * (q3' - q1')) (q3' + 3 / 2 * (q3' - q1')) (col Quantity_col r)) r) ?d1"
      unfolding cap_outliers_def by (rule replace_with_thresholds_map [OF q(4)])
    have "cap_outliers df ! i = (\<lambda>r. set_col Quantity_col
        (clip (q1' - 3 / 2 * (q3' - q1')) (q3' + 3 / 2 * (q3' - q1')) (col Quantity_col r)) r) (?d1 ! i)"
      unfolding e2 using that by (intro nth_map) simp
    moreover have "?d1 ! i = (\<lambda>r. set_col Price_col
        (clip (q1 - 3 / 2 * (q3 - q1)) (q3 + 3 / 2 * (q3 - q1)) (col Price_col r)) r) (df ! i)"
      unfolding e1 using that by (intro nth_map) simp
    ultimately show ?thesis by simp
  qed
  with p q show ?thesis by blast
qed

lemma spike_Quantity: "map (col Quantity_col) (spike_table x) = replicate 61 1 @ [x]"
  by (simp add: spike_table_def line_def)

lemma sorted_spike: "1 \<le> x \<Longrightarrow> sorted (replicate 61 (1::real) @ [x])"
  by (simp add: sorted_append)

lemma quantile_spike_low:
  assumes "1 \<le> x"
  shows "quantile (replicate 61 1 @ [x]) (1 / 100) = Some 1"
proof -
  have s: "sort (replicate 61 (1::real) @ [x]) = replicate 61 1 @ [x]"
    using sorted_spike [OF assms] by (rule sorted_sort_id)
  have f: "\<lfloor>61 / 100 :: real\<rfloor> = 0" by simp
  show ?thesis
    by (simp add: quantile_def s f nth_append)
qed

lemma quantile_spike_high:
  assumes "1 \<le> x"
  shows "quantile (replicate 61 1 @ [x]) (99 / 100) = Some (1 + 39 / 100 * (x - 1))"
proof -
  have s: "sort (replicate 61 (1::real) @ [x]) = replicate 61 1 @ [x]"
    using sorted_spike [OF assms] by (rule sorted_sort_id)
  have f: "\<lfloor>6039 / 100 :: real\<rfloor> = 60" by simp
  show ?thesis
    by (simp add: quantile_def s f nth_append)
qed

lemma thresholds_spike:
  assumes "1 \<le> x"
  shows "outlier_thresholds (spike_table x) Quantity_col =
           Some (1 - 117 / 200 * (x - 1), 1 + 39 / 40 * (x - 1))"
  by (simp add: outlier_thresholds_def spike_Quantity quantile_spike_low [OF assms]
        quantile_spike_high [OF assms] field_simps)

lemma replace_spike:
  assumes "1 \<le> x"
  shows "replace_with_thresholds (spike_table x) Quantity_col = spike_table (1 + 39 / 40 * (x - 1))"
proof -
  have "clip (1 - 117 / 200 * (x - 1)) (1 + 39 / 40 * (x - 1)) 1 = 1"
    using assms by (simp add: clip_def)
  moreover have "clip (1 - 117 / 200 * (x - 1)) (1 + 39 / 40 * (x - 1)) x = 1 + 39 / 40 * (x - 1)"
  proof -
    have "1 + 39 / 40 * (x - 1) \<le> x" and "1 - 117 / 200 * (x - 1) \<le> x"
      using assms by (simp_all add: field_simps)
    then show ?thesis unfolding clip_def by auto
  qed
  ultimately show ?thesis
    unfolding replace_with_thresholds_map [OF thresholds_spike [OF assms]]
    by (simp add: spike_table_def line_def)
qed

text \<open>
  C5. On the null-filtered table \<open>dropna raw\<close> (not empty), cell 8 computes for
  Price and for Quantity, each from its own column of that table, q1 = the 1st
  percentile, q3 = the 99th percentile, low = q1 - 1.5 * (q3 - q1) and
  high = q3 + 1.5 * (q3 - q1); it replaces every value below low by low and every
  value above high by high, leaves every other value and every other column as it
  is, and keeps the number of rows.
\<close>

theorem outlier_capping:
  fixes raw :: "txn list"
  defines "df \<equiv> dropna raw"
  assumes ne: "df \<noteq> []"
  shows "\<exists>q1 q3 q1' q3'.
           quantile (map Price df) (1 / 100) = Some q1 \<and>
           quantile (map Price df) (99 / 100) = Some q3 \<and>
           quantile (map Quantity df) (1 / 100) = Some q1' \<and>
           quantile (map Quantity df) (99 / 100) = Some q3' \<and>
           length (cap_outliers df) = length df \<and>
           (\<forall>i<length df. cap_outliers df ! i = (df ! i)
             \<lparr>Price := clip (q1 - 3 / 2 * (q3 - q1)) (q3 + 3 / 2 * (q3 - q1)) (Price (df ! i)),
              Quantity := clip (q1' - 3 / 2 * (q3' - q1')) (q3' + 3 / 2 * (q3' - q1'))
                            (Quantity (df ! i))\<rparr>)"
  using cap_outliers_rowwise [OF ne] by (simp only: length_cap_outliers) blast

lemma spike_Price: "map Price (spike_table x) = replicate 61 2 @ [2]"
  by (simp add: spike_table_def line_def)

lemma quantile_const:
  "quantile (replicate 61 2 @ [2]) (1 / 100) = Some 2"
  "quantile (replicate 61 2 @ [2]) (99 / 100) = Some 2"
proof -
  have srt: "sorted (replicate 61 (2::real) @ [2])" by (simp add: sorted_append)
  have s: "sort (replicate 61 (2::real) @ [2]) = replicate 61 2 @ [2]"
    using srt by (rule sorted_sort_id)
  have f: "\<lfloor>61 / 100 :: real\<rfloor> = 0" "\<lfloor>6039 / 100 :: real\<rfloor> = 60" by simp_all
  show "quantile (replicate 61 2 @ [2]) (1 / 100) = Some 2"
    by (simp add: quantile_def s f nth_append)
  show "quantile (replicate 61 2 @ [2]) (99 / 100) = Some 2"
    by (simp add: quantile_def s f nth_append)
qed

lemma dropna_spike: "dropna (spike_table x) = spike_table x"
  by (simp add: dropna_def spike_table_def line_def)

text \<open>
  On the table of sixty-one quantities 1 and one quantity 101 the limits of Quantity
  are -57.5 and 98.5: the last row is capped to 98.5, the others stay.
\<close>

theorem outlier_capping_witness:
  "dropna (spike_table 101) \<noteq> [] \<and>
   length (cap_outliers (dropna (spike_table 101))) = 62 \<and>
   Price (cap_outliers (dropna (spike_table 101)) ! 61) = 2 \<and>
   Quantity (cap_outliers (dropna (spike_table 101)) ! 61) = 197 / 2 \<and>
   Quantity (cap_outliers (dropna (spike_table 101)) ! 0) = 1"
proof -
  have ne: "dropna (spike_table 101) \<noteq> []"
    unfolding dropna_spike by (simp add: spike_table_def)
  have len: "length (spike_table 101) = 62"
    by (simp add: spike_table_def)
  have q: "map Quantity (spike_table 101) = replicate 61 1 @ [101]"
    by (simp add: spike_table_def line_def)
  have rows: "spike_table 101 ! 61 = line ''536366'' 101 (15305 * ns_per_day) 2 (Some 100) ''France''"
    "spike_table 101 ! 0 = line ''536365'' 1 (15298 * ns_per_day) 2 (Some 100) ''France''"
    by (simp_all add: spike_table_def nth_append)
  from outlier_capping [OF ne] obtain q1 q3 q1' q3' where
    "quantile (map Price (spike_table 101)) (1 / 100) = Some q1"
    "quantile (map Price (spike_table 101)) (99 / 100) = Some q3"
    "quantile (map Quantity (spike_table 101)) (1 / 100) = Some q1'"
    "quantile (map Quantity (spike_table 101)) (99 / 100) = Some q3'"
    and l: "length (cap_outliers (spike_table 101)) = length (spike_table 101)"
    and r: "\<forall>i<length (spike_table 101). cap_outliers (spike_table 101) ! i = (spike_table 101 ! i)
             \<lparr>Price := clip (q1 - 3 / 2 * (q3 - q1)) (q3 + 3 / 2 * (q3 - q1)) (Price (spike_table 101 ! i)),
              Quantity := clip (q1' - 3 / 2 * (q3' - q1')) (q3' + 3 / 2 * (q3' - q1'))
                            (Quantity (spike_table 101 ! i))\<rparr>"
    unfolding dropna_spike by blast
  then have v: "q1 = 2" "q3 = 2" "q1' = 1" "q3' = 40"
    using quantile_spike_low [of 101] quantile_spike_high [of 101]
    by (simp_all add: spike_Price q quantile_const)
  from r have r61: "cap_outliers (spike_table 101) ! 61 = (spike_table 101 ! 61)
             \<lparr>Price := clip (q1 - 3 / 2 * (q3 - q1)) (q3 + 3 / 2 * (q3 - q1)) (Price (spike_table 101 ! 61)),
              Quantity := clip (q1' - 3 / 2 * (q3' - q1')) (q3' + 3 / 2 * (q3' - q1'))
                            (Quantity (spike_table 101 ! 61))\<rparr>"
    and r0: "cap_outliers (spike_table 101) ! 0 = (spike_table 101 ! 0)
             \<lparr>Price := clip (q1 - 3 / 2 * (q3 - q1)) (q3 + 3 / 2 * (q3 - q1)) (Price (spike_table 101 ! 0)),
              Quantity := clip (q1' - 3 / 2 * (q3' - q1')) (q3' + 3 / 2 * (q3' - q1'))
                            (Quantity (spike_table 101 ! 0))\<rparr>"
    by (simp_all add: len)
  show ?thesis
    using ne l
    by (simp add: dropna_spike len r61 r0 rows v line_def clip_def)
qed

section \<open>Capping twice\<close>

text \<open>
  Counterexample to C9 as stated (capping twice is capping once). Capping is not
  idempotent when the limits are recomputed. On sixty-one quantities
  1 and one quantity 101 the 99th percentile interpolates between 1 and 101 at
  0.39: the limit is 98.5 and the outlier becomes 98.5. On the capped column the
  percentile interpolates between 1 and 98.5, the limit drops to 96.0625, and the
  second application caps the same row again.
\<close>

theorem capping_twice_counterexample:
  "replace_with_thresholds (spike_table 101) Quantity_col = spike_table (197 / 2) \<and>
   replace_with_thresholds (replace_with_thresholds (spike_table 101) Quantity_col) Quantity_col
     = spike_table (1537 / 16) \<and>
   replace_with_thresholds (replace_with_thresholds (spike_table 101) Quantity_col) Quantity_col
     \<noteq> replace_with_thresholds (spike_table 101) Quantity_col"
proof -
  have a: "replace_with_thresholds (spike_table 101) Quantity_col = spike_table (197 / 2)"
    using replace_spike [of 101] by simp
  have b: "replace_with_thresholds (spike_table (197 / 2)) Quantity_col = spike_table (1537 / 16)"
    using replace_spike [of "197 / 2"] by simp
  have c: "spike_table (1537 / 16) \<noteq> spike_table (197 / 2)"
    by (simp add: spike_table_def line_def)
  show ?thesis unfolding a b using c by simp
qed

lemma clip_within:
  assumes "low \<le> up"
  shows "\<not> clip low up x < low" and "\<not> up < clip low up x"
  using assms by (auto simp: clip_def)

lemma clip_id_iff: "low \<le> up \<Longrightarrow> clip low up x = x \<longleftrightarrow> low \<le> x \<and> x \<le> up"
  by (auto simp: clip_def)

lemma set_col_fixed: "set_col v x r = r \<longleftrightarrow> x = col v r"
proof
  assume "set_col v x r = r"
  then have "col v (set_col v x r) = col v r" by simp
  then show "x = col v r" by simp
qed simp

text \<open>
  C9, as amended. With \<open>(low, up)\<close> the limits computed from a column, capping
  leaves the table unchanged exactly when every value of the column lies within
  \<open>[low, up]\<close>, and clamping the capped table to the same limits again changes
  nothing. (With limits recomputed from the capped column a second application may
  move values again, as the counterexample shows.)
\<close>

theorem capping_no_op_within_limits:
  assumes th: "outlier_thresholds df v = Some (low, up)"
  shows "(replace_with_thresholds df v = df \<longleftrightarrow> (\<forall>r\<in>set df. low \<le> col v r \<and> col v r \<le> up)) \<and>
         assign_above v up (assign_below v low (replace_with_thresholds df v)) =
           replace_with_thresholds df v"
proof
  have le: "low \<le> up" using th by (rule outlier_thresholds_ordered)
  have m: "replace_with_thresholds df v = map (\<lambda>r. set_col v (clip low up (col v r)) r) df"
    by (rule replace_with_thresholds_map [OF th])
  have "map (\<lambda>r. set_col v (clip low up (col v r)) r) df = map id df \<longleftrightarrow>
        (\<forall>r\<in>set df. set_col v (clip low up (col v r)) r = id r)"
    by (rule map_eq_conv)
  then show "replace_with_thresholds df v = df \<longleftrightarrow> (\<forall>r\<in>set df. low \<le> col v r \<and> col v r \<le> up)"
    unfolding m by (simp add: set_col_fixed clip_id_iff [OF le])
  have "assign_above v up (assign_below v low (map (\<lambda>r. set_col v (clip low up (col v r)) r) df)) =
        map (\<lambda>r. set_col v (clip low up (col v r)) r) df"
    by (simp add: assign_above_def assign_below_def o_def clip_within [OF le])
  then show "assign_above v up (assign_below v low (replace_with_thresholds df v)) =
           replace_with_thresholds df v"
    unfolding m .
qed

text \<open>
  The prices of the example table lie within their limits -14.5 and 24.7: capping
  Price is a no-op there.
\<close>

theorem capping_no_op_within_limits_witness:
  "outlier_thresholds (dropna retail_example) Price_col = Some (- 29 / 2, 247 / 10) \<and>
   list_all (\<lambda>r. - 29 / 2 \<le> Price r \<and> Price r \<le> 247 / 10) (dropna retail_example) \<and>
   replace_with_thresholds (dropna retail_example) Price_col = dropna retail_example"
proof -
  have th: "outlier_thresholds (dropna retail_example) Price_col = Some (- 29 / 2, 247 / 10)"
    by code_simp
  have within: "\<forall>r\<in>set (dropna retail_example).
      - 29 / 2 \<le> col Price_col r \<and> col Price_col r \<le> 247 / 10"
    by code_simp
  from capping_no_op_within_limits [OF th] within
  have "replace_with_thresholds (dropna retail_example) Price_col = dropna retail_example"
    by blast
  with th within show ?thesis by (simp add: list_all_iff)
qed

section \<open>Rare countries: cells 9 and 10\<close>

lemma set_col_labels:
  "Invoice (set_col v x r) = Invoice r"
  "StockCode (set_col v x r) = StockCode r"
  "Description (set_col v x r) = Description r"
  "InvoiceDate (set_col v x r) = InvoiceDate r"
  "Customer_ID (set_col v x r) = Customer_ID r"
  "Country (set_col v x r) = Country r"
  by (cases v; simp)+

lemma replace_with_thresholds_rows:
  "\<exists>f. replace_with_thresholds dataframe v = map (\<lambda>r. set_col v (f r) r) dataframe"
proof (cases "outlier_thresholds dataframe v")
  case None
  then have "replace_with_thresholds dataframe v = map (\<lambda>r. set_col v (col v r) r) dataframe"
    by (simp add: replace_with_thresholds_def)
  then show ?thesis by (rule exI [of _ "col v"])
next
  case (Some p)
  obtain low up where "p = (low, up)" by (cases p)
  with Some have "replace_with_thresholds dataframe v =
           map (\<lambda>r. set_col v (clip low up (col v r)) r) dataframe"
    by (simp add: replace_with_thresholds_map)
  then show ?thesis by (rule exI [of _ "\<lambda>r. clip low up (col v r)"])
qed

lemma cap_outliers_rows:
  "\<exists>f g. cap_outliers df = map (\<lambda>r. r\<lparr>Price := f r, Quantity := g r\<rparr>) df"
proof -
  obtain f where f: "replace_with_thresholds df Price_col = map (\<lambda>r. set_col Price_col (f r) r) df"
    using replace_with_thresholds_rows by blast
  obtain g where g: "cap_outliers df =
      map (\<lambda>r. set_col Quantity_col (g r) r) (replace_with_thresholds df Price_col)"
    unfolding cap_outliers_def using replace_with_thresholds_rows by blast
  have "cap_outliers df = map (\<lambda>r. r\<lparr>Price := f r, Quantity := g (r\<lparr>Price := f r\<rparr>)\<rparr>) df"
    unfolding g f by (simp add: o_def)
  then show ?thesis
    by (intro exI [of _ f] exI [of _ "\<lambda>r. g (r\<lparr>Price := f r\<rparr>)"])
qed

lemma cap_outliers_Country: "map Country (cap_outliers df) = map Country df"
proof -
  obtain f g where "cap_outliers df = map (\<lambda>r. r\<lparr>Price := f r, Quantity := g r\<rparr>) df"
    using cap_outliers_rows by blast
  then show ?thesis by (simp add: o_def)
qed

lemma cap_outliers_same_line:
  assumes "x \<in> set (cap_outliers df)"
  shows "\<exists>y\<in>set df. same_line y x \<and> Country y = Country x"
proof -
  obtain f g where "cap_outliers df = map (\<lambda>r. r\<lparr>Price := f r, Quantity := g r\<rparr>) df"
    using cap_outliers_rows by blast
  with assms show ?thesis by (auto simp: same_line_def)
qed

lemma country_loop_map:
  "country_loop its df =
     map (\<lambda>r. if \<exists>n. (Country r, n) \<in> set its \<and> n < 1000 then r\<lparr>Country := ''others''\<rparr> else r) df"
proof (induction its df rule: country_loop.induct)
  case (1 df)
  then show ?case by (simp add: map_idI)
next
  case (2 i n rest df)
  show ?case
  proof (cases "n < 1000")
    case True
    show ?thesis
      unfolding country_loop.simps 2 using True
      by (auto simp: replace_country_def)
  next
    case False
    show ?thesis
      unfolding country_loop.simps 2 using False
      by auto
  qed
qed

lemma set_value_counts: "set (value_counts cs) = (\<lambda>c. (c, count_list cs c)) ` set cs"
  by (simp add: value_counts_def first_seen_def)

lemma fold_rare_countries_map:
  "fold_rare_countries df =
     map (\<lambda>r. if count_list (map Country df) (Country r) < 1000
               then r\<lparr>Country := ''others''\<rparr> else r) df"
  unfolding fold_rare_countries_def country_loop_map
  by (rule map_cong) (auto simp: set_value_counts)

lemma fold_rare_countries_same_line:
  assumes "x \<in> set (fold_rare_countries df)"
  shows "\<exists>y\<in>set df. same_line y x \<and> Price y = Price x \<and> Quantity y = Quantity x"
  using assms unfolding fold_rare_countries_map by (auto simp: same_line_def)

lemma length_fold_rare_countries [simp]: "length (fold_rare_countries df) = length df"
  by (simp add: fold_rare_countries_map)

lemma quantile_constant:
  assumes ne: "xs \<noteq> []" and c: "set xs \<subseteq> {c}" and q: "0 \<le> q" "q \<le> 1"
  shows "quantile xs q = Some c"
proof -
  let ?v = "sort xs" and ?h = "real (length xs - 1) * q"
  have v: "?v \<noteq> []" using ne by (metis length_sort length_0_conv)
  have all: "?v ! i = c" if "i < length ?v" for i
  proof -
    from that have "?v ! i \<in> set ?v" by (rule nth_mem)
    with c show ?thesis by auto
  qed
  have h: "0 \<le> ?h" "?h \<le> real (length ?v - 1)"
    using q ne by (simp_all add: mult_left_le)
  have "\<lfloor>?h\<rfloor> \<le> int (length ?v - 1)" using h(2) by (simp add: floor_le_iff)
  moreover have pos: "0 < length ?v" using ne by simp
  ultimately have lo: "nat \<lfloor>?h\<rfloor> < length ?v" by linarith
  have "min (nat \<lfloor>?h\<rfloor> + 1) (length ?v - 1) \<le> length ?v - 1" by simp
  with pos have hi: "min (nat \<lfloor>?h\<rfloor> + 1) (length ?v - 1) < length ?v" by linarith
  have "lerp ?v ?h = c"
    unfolding lerp_def all [OF lo] all [OF hi] by simp
  then show ?thesis by (simp add: quantile_lerp [OF ne])
qed

lemma replace_with_thresholds_constant:
  assumes "\<forall>r\<in>set dataframe. col v r = c"
  shows "replace_with_thresholds dataframe v = dataframe"
proof (cases "dataframe = []")
  case True
  then show ?thesis by (simp add: replace_with_thresholds_def)
next
  case False
  then have ne: "map (col v) dataframe \<noteq> []" by simp
  have sub: "set (map (col v) dataframe) \<subseteq> {c}" using assms by auto
  have th: "outlier_thresholds dataframe v = Some (c, c)"
    by (simp add: outlier_thresholds_def quantile_constant [OF ne sub])
  have "map (\<lambda>r. set_col v (clip c c (col v r)) r) dataframe = map (\<lambda>r. r) dataframe"
    by (rule map_cong) (simp_all add: assms clip_def set_col_fixed)
  then show ?thesis
    unfolding replace_with_thresholds_map [OF th] by simp
qed

lemma count_list_replicate: "count_list (replicate n x) y = (if x = y then n else 0)"
  by (induction n) auto

lemma cap_outliers_malta: "cap_outliers malta_example = malta_example"
proof -
  have p: "\<forall>r\<in>set malta_example. col Price_col r = 2"
    and q: "\<forall>r\<in>set malta_example. col Quantity_col r = 1"
    by (auto simp: malta_example_def line_def)
  show ?thesis
    unfolding cap_outliers_def replace_with_thresholds_constant [OF p]
    by (rule replace_with_thresholds_constant [OF q])
qed

lemma dropna_malta: "dropna malta_example = malta_example"
  by (simp add: dropna_def malta_example_def line_def)

lemma Country_malta: "map Country malta_example = replicate 999 ''Malta'' @ [''Malta'']"
  by (simp add: malta_example_def line_def)

lemma fold_malta: "fold_rare_countries malta_example = malta_example"
proof -
  have "count_list (map Country malta_example) ''Malta'' = 1000"
    unfolding Country_malta by (simp add: count_list_replicate)
  moreover have "\<forall>r\<in>set malta_example. Country r = ''Malta''"
    by (auto simp: malta_example_def line_def)
  ultimately have "map (\<lambda>r. if count_list (map Country malta_example) (Country r) < 1000
               then r\<lparr>Country := ''others''\<rparr> else r) malta_example = map (\<lambda>r. r) malta_example"
    by (intro map_cong) simp_all
  then show ?thesis unfolding fold_rare_countries_map by simp
qed

lemma filters_malta:
  "drop_nonpositive_price (drop_cancellations malta_example) =
     replicate 999 (line ''536365'' 1 (15298 * ns_per_day) 2 (Some 100) ''Malta'')"
  by (simp add: drop_nonpositive_price_def drop_cancellations_def malta_example_def line_def)

text \<open>
  Counterexample to C4 as stated (the counts are taken over the cleaned table).
  The counts of cell 9 are not those of the cleaned table. Cells 9 and 10 run before
  the cancellation filter of cell 12 and the price filter of cell 13: with 999
  valid lines and one cancellation line from Malta, the count of cell 9 is 1000 and
  the label is kept, although Malta occurs 999 times, fewer than 1000, in the table
  left by the null, cancellation and price filters.
\<close>

theorem rare_country_cleaned_count_counterexample:
  "count_list (map Country (drop_nonpositive_price (drop_cancellations
      (cap_outliers (dropna malta_example))))) ''Malta'' = 999 \<and>
   map Country (cleaned malta_example) = replicate 999 ''Malta'' \<and>
   count_list (map Country (cap_outliers (dropna malta_example))) ''Malta'' = 1000"
proof -
  have "map Country (cleaned malta_example) = replicate 999 ''Malta''"
    unfolding cleaned_def dropna_malta cap_outliers_malta fold_malta filters_malta
    by (simp add: add_TotalPrice_def line_def add_TotalPrice_fields)
  moreover have "count_list (map Country (drop_nonpositive_price (drop_cancellations
      (cap_outliers (dropna malta_example))))) ''Malta'' = 999"
    unfolding dropna_malta cap_outliers_malta filters_malta
    by (simp add: line_def count_list_replicate)
  moreover have "count_list (map Country (cap_outliers (dropna malta_example))) ''Malta'' = 1000"
    unfolding dropna_malta cap_outliers_malta Country_malta
    by (simp add: count_list_replicate)
  ultimately show ?thesis by simp
qed

text \<open>
  C4, as amended. Rare-country folding counts the occurrences of each country over
  the null-filtered table (capping does not touch Country), before the cancellation
  and price filters; the counts are those of the labels as they are before any
  relabeling. A row is relabeled to \<open>others\<close> exactly when the count of its country
  is strictly below 1000 (a count of exactly 1000 keeps the label); nothing else in
  the row changes, and the filters of cells 12 and 13 run on the relabeled table.
\<close>

theorem rare_country_folding:
  fixes raw :: "txn list"
  defines "pre \<equiv> cap_outliers (dropna raw)"
  assumes i: "i < length pre"
  shows "cleaned raw =
           add_TotalPrice (drop_nonpositive_price (drop_cancellations (fold_rare_countries pre))) \<and>
         map Country pre = map Country (dropna raw) \<and>
         length (fold_rare_countries pre) = length pre \<and>
         fold_rare_countries pre ! i =
           (if count_list (map Country (dropna raw)) (Country (pre ! i)) < 1000
            then (pre ! i)\<lparr>Country := ''others''\<rparr> else pre ! i)"
proof -
  have c: "map Country pre = map Country (dropna raw)"
    unfolding pre_def by (rule cap_outliers_Country)
  show ?thesis
    using i by (simp add: c [symmetric] cleaned_def pre_def [symmetric] fold_rare_countries_map)
qed

text \<open>In the example table France occurs 5 times and is relabeled.\<close>

theorem rare_country_folding_witness:
  "(0::nat) < length (cap_outliers (dropna retail_example)) \<and>
   count_list (map Country (dropna retail_example)) ''France'' = 5 \<and>
   Country (cap_outliers (dropna retail_example) ! 0) = ''France'' \<and>
   Country (fold_rare_countries (cap_outliers (dropna retail_example)) ! 0) = ''others''"
proof -
  have l: "(0::nat) < length (cap_outliers (dropna retail_example))"
    by code_simp
  have n: "count_list (map Country (dropna retail_example)) ''France'' = 5"
    by code_simp
  have r: "Country (cap_outliers (dropna retail_example) ! 0) = ''France''"
    by code_simp
  show ?thesis
    using rare_country_folding [OF l] l n r by simp
qed

section \<open>Grouping and aggregating: cells 18 to 20\<close>

lemma set_group_keys: "set (group_keys df) = {k. \<exists>r\<in>set df. group_key r = Some k}"
  by (force simp: group_keys_def List.map_filter_def)

lemma distinct_group_keys: "distinct (group_keys df)"
  by (simp add: group_keys_def)

lemma group_rows_eq:
  "group_rows df (c, co) = filter (\<lambda>x. Customer_ID x = Some c \<and> Country x = co) df"
  unfolding group_rows_def
  by (rule filter_cong) (auto simp: group_key_def split: option.splits)

lemma group_rows_nonempty: "k \<in> set (group_keys df) \<Longrightarrow> group_rows df k \<noteq> []"
  by (auto simp: set_group_keys group_rows_def filter_empty_conv)

lemma concat_map_singleton:
  "(\<And>k. k \<in> set ks \<Longrightarrow> f k = [g k]) \<Longrightarrow> concat (map f ks) = map g ks"
  by (induction ks) auto

lemma groupby_agg_map: "groupby_agg df = map (group_row df) (group_keys df)"
  unfolding groupby_agg_def
proof (rule concat_map_singleton)
  fix k assume "k \<in> set (group_keys df)"
  then have "group_rows df k \<noteq> []" by (rule group_rows_nonempty)
  then show "(case group_rows df k of [] \<Rightarrow> [] | r # rs \<Rightarrow> [agg_group k r rs]) = [group_row df k]"
    by (cases "group_rows df k") (simp_all add: group_row_def)
qed

lemma series_max_Max: "series_max d ds = Max (set (d # ds))"
  by (simp only: series_max_def Max.set_eq_fold)

lemma series_min_Min: "series_min d ds = Min (set (d # ds))"
  by (simp only: series_min_def Min.set_eq_fold)

lemma agg_group_fields:
  "key_Customer_ID (agg_group k r rs) = fst k"
  "key_Country (agg_group k r rs) = snd k"
  "monetary (agg_group k r rs) = sum_list (map TotalPrice (r # rs))"
  "CustomerLifeSpan (agg_group k r rs) =
     real_of_int (days (Max (InvoiceDate ` set (r # rs)) - Min (InvoiceDate ` set (r # rs))))"
  "recency (agg_group k r rs) =
     real_of_int (days (today_date - Max (InvoiceDate ` set (r # rs))))"
  "frequency (agg_group k r rs) = card (Invoice ` set (r # rs))"
proof -
  have "nunique (map Invoice (r # rs)) = card (Invoice ` set (r # rs))"
    by (simp only: nunique_card set_map)
  then show "frequency (agg_group k r rs) = card (Invoice ` set (r # rs))"
    by (simp add: agg_group_def Let_def)
qed (simp_all add: agg_group_def Let_def series_max_Max series_min_Min)

lemma group_row_fields:
  assumes "k \<in> set (group_keys df)"
  shows "key_Customer_ID (group_row df k) = fst k"
    and "key_Country (group_row df k) = snd k"
    and "monetary (group_row df k) = sum_list (map TotalPrice (group_rows df k))"
    and "CustomerLifeSpan (group_row df k) =
          real_of_int (days (Max (InvoiceDate ` set (group_rows df k)) -
                             Min (InvoiceDate ` set (group_rows df k))))"
    and "recency (group_row df k) =
          real_of_int (days (today_date - Max (InvoiceDate ` set (group_rows df k))))"
    and "frequency (group_row df k) = card (Invoice ` set (group_rows df k))"
proof -
  from assms have "group_rows df k \<noteq> []" by (rule group_rows_nonempty)
  then have e: "hd (group_rows df k) # tl (group_rows df k) = group_rows df k" by simp
  show "key_Customer_ID (group_row df k) = fst k" "key_Country (group_row df k) = snd k"
    by (simp_all add: group_row_def agg_group_fields)
  show "monetary (group_row df k) = sum_list (map TotalPrice (group_rows df k))"
    unfolding group_row_def agg_group_fields e ..
  show "CustomerLifeSpan (group_row df k) =
          real_of_int (days (Max (InvoiceDate ` set (group_rows df k)) -
                             Min (InvoiceDate ` set (group_rows df k))))"
    unfolding group_row_def agg_group_fields e ..
  show "recency (group_row df k) =
          real_of_int (days (today_date - Max (InvoiceDate ` set (group_rows df k))))"
    unfolding group_row_def agg_group_fields e ..
  show "frequency (group_row df k) = card (Invoice ` set (group_rows df k))"
    unfolding group_row_def agg_group_fields e ..
qed

lemma weeks_row_fields:
  "key_Customer_ID (weeks_row r) = key_Customer_ID r"
  "key_Country (weeks_row r) = key_Country r"
  "monetary (weeks_row r) = monetary r"
  "CustomerLifeSpan (weeks_row r) = CustomerLifeSpan r / 7"
  "recency (weeks_row r) = recency r / 7"
  "frequency (weeks_row r) = frequency r"
  by (simp_all add: weeks_row_def)

lemma aggregate_eq:
  "aggregate_rows df =
     map (\<lambda>k. weeks_row (group_row df k))
         (filter (\<lambda>k. 1 < frequency (group_row df k)) (group_keys df))"
  by (simp add: aggregate_rows_def to_weeks_def frequency_filter_def groupby_agg_map filter_map
        o_def weeks_row_def)

lemma aggregate_keys:
  "map row_key (aggregate_rows df) = filter (\<lambda>k. 1 < frequency (group_row df k)) (group_keys df)"
proof -
  have "map (\<lambda>k. row_key (weeks_row (group_row df k))) ks = ks"
    if "set ks \<subseteq> set (group_keys df)" for ks
    using that by (induction ks) (simp_all add: row_key_def weeks_row_fields group_row_fields)
  then show ?thesis
    by (simp add: aggregate_eq o_def)
qed

lemma distinct_aggregate_keys: "distinct (map row_key (aggregate_rows df))"
  by (simp add: aggregate_keys distinct_group_keys)

lemma aggregate_row:
  assumes "r \<in> set (aggregate_rows df)"
  defines "g \<equiv> group_rows df (row_key r)"
  shows "g \<noteq> [] \<and> 1 < frequency r \<and>
         monetary r = sum_list (map TotalPrice g) \<and>
         CustomerLifeSpan r =
           real_of_int (days (Max (InvoiceDate ` set g) - Min (InvoiceDate ` set g))) / 7 \<and>
         recency r = real_of_int (days (today_date - Max (InvoiceDate ` set g))) / 7 \<and>
         frequency r = card (Invoice ` set g)"
proof -
  from assms(1) obtain k where k: "k \<in> set (group_keys df)" "1 < frequency (group_row df k)"
      and r: "r = weeks_row (group_row df k)"
    by (auto simp: aggregate_eq)
  have key: "row_key r = k"
    by (simp add: r row_key_def weeks_row_fields group_row_fields [OF k(1)])
  show ?thesis
    unfolding g_def key
    using k(2) group_rows_nonempty [OF k(1)]
    by (simp add: r weeks_row_fields group_row_fields [OF k(1)])
qed

lemma aggregate_complete:
  assumes "k \<in> set (group_keys df)" "1 < card (Invoice ` set (group_rows df k))"
  shows "k \<in> row_key ` set (aggregate_rows df)"
proof -
  have "k \<in> set (map row_key (aggregate_rows df))"
    unfolding aggregate_keys using assms by (simp add: group_row_fields)
  then show ?thesis by simp
qed

section \<open>The cleaned table\<close>

lemma cleaned_no_cancellation:
  assumes "x \<in> set (cleaned raw)"
  shows "CHR ''C'' \<notin> set (Invoice x)"
proof -
  from assms obtain y where
    y: "y \<in> set (drop_nonpositive_price (drop_cancellations
          (fold_rare_countries (cap_outliers (dropna raw)))))"
    and x: "x = txn.extend y (etxn.fields (Price y * Quantity y))"
    by (auto simp: cleaned_def add_TotalPrice_def)
  from y have "CHR ''C'' \<notin> set (Invoice y)"
    by (simp add: drop_nonpositive_price_def drop_cancellations_def)
  then show ?thesis by (simp add: x add_TotalPrice_fields)
qed

lemma cleaned_TotalPrice:
  assumes "x \<in> set (cleaned raw)"
  shows "TotalPrice x = Price x * Quantity x \<and> 0 < Price x"
proof -
  from assms obtain y where
    y: "y \<in> set (drop_nonpositive_price (drop_cancellations
          (fold_rare_countries (cap_outliers (dropna raw)))))"
    and x: "x = txn.extend y (etxn.fields (Price y * Quantity y))"
    by (auto simp: cleaned_def add_TotalPrice_def)
  from y have "0 < Price y"
    by (simp add: drop_nonpositive_price_def)
  then show ?thesis by (simp add: x add_TotalPrice_fields)
qed

lemma cleaned_from_dropna:
  assumes "x \<in> set (cleaned raw)"
  shows "\<exists>y\<in>set (dropna raw). same_line y x \<and> CHR ''C'' \<notin> set (Invoice y)"
proof -
  from assms obtain a where
    a: "a \<in> set (drop_nonpositive_price (drop_cancellations
          (fold_rare_countries (cap_outliers (dropna raw)))))"
    and x: "x = txn.extend a (etxn.fields (Price a * Quantity a))"
    by (auto simp: cleaned_def add_TotalPrice_def)
  from a have noC: "CHR ''C'' \<notin> set (Invoice a)"
    and "a \<in> set (fold_rare_countries (cap_outliers (dropna raw)))"
    by (simp_all add: drop_nonpositive_price_def drop_cancellations_def)
  then obtain b where b: "b \<in> set (cap_outliers (dropna raw))" "same_line b a"
    using fold_rare_countries_same_line by blast
  then obtain y where y: "y \<in> set (dropna raw)" "same_line y b"
    using cap_outliers_same_line by blast
  have "same_line y x"
    using y(2) b(2) by (simp add: same_line_def x add_TotalPrice_fields)
  moreover have "CHR ''C'' \<notin> set (Invoice y)"
    using noC y(2) b(2) by (simp add: same_line_def)
  ultimately show ?thesis using y(1) by blast
qed

lemma cleaned_same_line:
  assumes "x \<in> set (cleaned raw)"
  shows "\<exists>y\<in>set raw. same_line y x \<and> CHR ''C'' \<notin> set (Invoice y)"
proof -
  from cleaned_from_dropna [OF assms] obtain y where
    "y \<in> set (dropna raw)" "same_line y x" "CHR ''C'' \<notin> set (Invoice y)"
    by blast
  moreover from this(1) have "y \<in> set raw" by (simp add: dropna_def)
  ultimately show ?thesis by blast
qed

lemma cleaned_Customer_ID:
  assumes "x \<in> set (cleaned raw)"
  shows "Customer_ID x \<noteq> None"
proof -
  from cleaned_from_dropna [OF assms] obtain y where
    "y \<in> set (dropna raw)" "same_line y x"
    by blast
  then show ?thesis by (auto simp: dropna_def same_line_def)
qed

section \<open>The rows that cells 20 and 25 leave\<close>

lemma aggregate_rows_per_group:
  "distinct (map row_key (aggregate_rows df)) \<and>
   row_key ` set (aggregate_rows df) =
     {(c, co). 1 < card (Invoice ` {x \<in> set df. Customer_ID x = Some c \<and> Country x = co})} \<and>
   (\<forall>r\<in>set (aggregate_rows df).
      \<exists>g. g = filter (\<lambda>x. Customer_ID x = Some (key_Customer_ID r) \<and>
                           Country x = key_Country r) df \<and>
          g \<noteq> [] \<and>
          monetary r = sum_list (map TotalPrice g) \<and>
          CustomerLifeSpan r =
            real_of_int ((Max (InvoiceDate ` set g) - Min (InvoiceDate ` set g)) div ns_per_day) / 7 \<and>
          (card (InvoiceDate ` set g) = 1 \<longrightarrow> CustomerLifeSpan r = 0) \<and>
          recency r =
            real_of_int ((today_date - Max (InvoiceDate ` set g)) div ns_per_day) / 7 \<and>
          frequency r = card (Invoice ` set g))"
proof (intro conjI ballI)
  show "distinct (map row_key (aggregate_rows df))" by (rule distinct_aggregate_keys)
next
  have set_rows: "set (group_rows df (c, co)) = {x \<in> set df. Customer_ID x = Some c \<and> Country x = co}"
    for c co by (auto simp: group_rows_eq)
  show "row_key ` set (aggregate_rows df) =
     {(c, co). 1 < card (Invoice ` {x \<in> set df. Customer_ID x = Some c \<and> Country x = co})}"
  proof (intro set_eqI iffI)
    fix k assume "k \<in> row_key ` set (aggregate_rows df)"
    then obtain r where r: "r \<in> set (aggregate_rows df)" "k = row_key r" by auto
    from aggregate_row [OF r(1)] have "1 < card (Invoice ` set (group_rows df (row_key r)))"
      by simp
    then show "k \<in> {(c, co). 1 < card (Invoice ` {x \<in> set df. Customer_ID x = Some c \<and> Country x = co})}"
      by (cases k) (simp add: r(2) [symmetric] set_rows)
  next
    fix k
    assume k: "k \<in> {(c, co). 1 < card (Invoice ` {x \<in> set df. Customer_ID x = Some c \<and> Country x = co})}"
    obtain c co where kc: "k = (c, co)" by (cases k)
    from k have card: "1 < card (Invoice ` set (group_rows df k))"
      by (simp add: kc set_rows)
    then have "set (group_rows df k) \<noteq> {}" by auto
    then obtain x where "x \<in> set df" "Customer_ID x = Some c" "Country x = co"
      by (auto simp: kc group_rows_eq)
    then have "k \<in> set (group_keys df)"
      by (auto simp: set_group_keys kc group_key_def intro!: bexI [of _ x])
    then show "k \<in> row_key ` set (aggregate_rows df)"
      using card by (rule aggregate_complete)
  qed
next
  fix r assume r: "r \<in> set (aggregate_rows df)"
  define g where "g = filter (\<lambda>x. Customer_ID x = Some (key_Customer_ID r) \<and>
                           Country x = key_Country r) df"
  have g: "group_rows df (row_key r) = g"
    by (simp add: row_key_def group_rows_eq g_def)
  note a = aggregate_row [OF r, unfolded g days_def]
  have single: "CustomerLifeSpan r = 0" if "card (InvoiceDate ` set g) = 1"
  proof -
    from that obtain d where d: "InvoiceDate ` set g = {d}"
      by (auto simp: card_1_singleton_iff)
    show ?thesis using a by (simp add: d)
  qed
  show "\<exists>g. g = filter (\<lambda>x. Customer_ID x = Some (key_Customer_ID r) \<and>
                           Country x = key_Country r) df \<and>
          g \<noteq> [] \<and>
          monetary r = sum_list (map TotalPrice g) \<and>
          CustomerLifeSpan r =
            real_of_int ((Max (InvoiceDate ` set g) - Min (InvoiceDate ` set g)) div ns_per_day) / 7 \<and>
          (card (InvoiceDate ` set g) = 1 \<longrightarrow> CustomerLifeSpan r = 0) \<and>
          recency r =
            real_of_int ((today_date - Max (InvoiceDate ` set g)) div ns_per_day) / 7 \<and>
          frequency r = card (Invoice ` set g)"
    using a single unfolding g_def [symmetric] by blast
qed

lemma output_rows_from:
  "r \<in> set (output_rows raw) \<Longrightarrow>
     \<exists>a\<in>set (aggregate_rows (cleaned raw)).
       r = metric_row (avg_purchase_frequency (aggregate_rows (cleaned raw)))
                      (avg_customer_lifespan (aggregate_rows (cleaned raw))) a"
  by (auto simp: output_rows_def metric_engine_def)

lemma output_rows_keys: "map row_key (output_rows raw) = map row_key (aggregate_rows (cleaned raw))"
  by (simp add: output_rows_def metric_engine_def row_key_def metric_row_fields)

lemma filter_single:
  assumes "distinct ks" "k \<in> set ks" "P k" "\<And>j. j \<in> set ks \<Longrightarrow> j \<noteq> k \<Longrightarrow> \<not> P j"
  shows "filter P ks = [k]"
  using assms
proof (induction ks)
  case Nil
  then show ?case by simp
next
  case (Cons a ks)
  show ?case
  proof (cases "a = k")
    case True
    with Cons.prems have "\<forall>j\<in>set ks. \<not> P j" by auto
    then have "filter P ks = []" by (simp add: filter_empty_conv)
    with True Cons.prems(3) show ?thesis by simp
  next
    case False
    with Cons.prems have "\<not> P a" "k \<in> set ks" "distinct ks" by auto
    with Cons show ?thesis by auto
  qed
qed

lemma group_rows_customer:
  assumes "\<forall>x\<in>set (filter (\<lambda>x. Customer_ID x = Some c) df). Country x = co"
  shows "group_rows df (c, co) = filter (\<lambda>x. Customer_ID x = Some c) df"
  unfolding group_rows_eq using assms by (intro filter_cong) auto

lemma scenario_rows:
  fixes raw :: "txn list" and co :: string
  defines "t \<equiv> cleaned raw"
  defines "g \<equiv> filter (\<lambda>x. Customer_ID x = Some 100) t"
  assumes country: "\<forall>x\<in>set g. Country x = co"
    and invoices: "card (Invoice ` set g) = 3"
    and span: "days (Max (InvoiceDate ` set g) - Min (InvoiceDate ` set g)) = 14"
    and last: "days (today_date - Max (InvoiceDate ` set g)) = 7"
    and total: "sum_list (map TotalPrice g) = 300"
    and others: "\<forall>x\<in>set t. Customer_ID x \<noteq> Some 100 \<longrightarrow>
        card (Invoice ` set (filter (\<lambda>y. Customer_ID y = Customer_ID x \<and> Country y = Country x) t)) \<le> 1"
  shows "output_rows raw =
    [\<lparr>key_Customer_ID = 100, key_Country = co, monetary = 300,
      CustomerLifeSpan = 2, recency = 1, frequency = 3,
      Average_Purchase_Value = Fin 100, Average_purchase_frequency = Fin 3,
      Customer_Value = Fin 300, Average_customer_lifespan = Fin 2,
      CLTV = Fin 600\<rparr>]"
proof -
  let ?k = "(100::int, co)"
  have gr: "group_rows t ?k = g"
    using country unfolding g_def by (rule group_rows_customer)
  from invoices have "set g \<noteq> {}" by auto
  then obtain x where x: "x \<in> set t" "Customer_ID x = Some 100" "Country x = co"
    using country by (auto simp: g_def)
  then have k: "?k \<in> set (group_keys t)"
    by (auto simp: set_group_keys group_key_def intro!: bexI [of _ x])
  have fk: "frequency (group_row t ?k) = 3"
    by (simp add: group_row_fields [OF k] gr invoices)
  have small: "\<not> 1 < frequency (group_row t j)" if j: "j \<in> set (group_keys t)" "j \<noteq> ?k" for j
  proof -
    obtain c d where jc: "j = (c, d)" by (cases j)
    from j(1) obtain y where y: "y \<in> set t" "Customer_ID y = Some c" "Country y = d"
      by (auto simp: set_group_keys jc group_key_def split: option.splits)
    have "c \<noteq> 100"
    proof
      assume "c = 100"
      with y have "y \<in> set g" by (simp add: g_def)
      with country y(3) have "d = co" by auto
      with \<open>c = 100\<close> jc j(2) show False by simp
    qed
    with others y have
      "card (Invoice ` set (filter (\<lambda>z. Customer_ID z = Some c \<and> Country z = d) t)) \<le> 1"
      by force
    moreover from j(1) have "(c, d) \<in> set (group_keys t)" by (simp add: jc)
    ultimately show ?thesis
      by (simp add: group_row_fields jc group_rows_eq)
  qed
  have "filter (\<lambda>k. 1 < frequency (group_row t k)) (group_keys t) = [?k]"
  proof (rule filter_single [OF distinct_group_keys k])
    show "1 < frequency (group_row t ?k)" by (simp add: fk)
  qed (rule small)
  then have agg: "aggregate_rows t = [weeks_row (group_row t ?k)]"
    by (simp add: aggregate_eq)
  have row: "weeks_row (group_row t ?k) =
      \<lparr>key_Customer_ID = 100, key_Country = co, monetary = 300,
       CustomerLifeSpan = 2, recency = 1, frequency = 3\<rparr>"
    by (rule agg_row.equality)
       (simp_all add: weeks_row_fields group_row_fields [OF k] gr invoices span last total)
  show ?thesis
    unfolding output_rows_def t_def [symmetric] agg row
    by (simp add: metric_engine_def metric_row_def avg_purchase_frequency_def
          avg_customer_lifespan_def np_div_def nunique_def agg_row.defs cltv_row.defs)
qed

lemma output_row_fields:
  assumes "r \<in> set (output_rows raw)"
  shows "\<exists>a\<in>set (aggregate_rows (cleaned raw)).
           row_key r = row_key a \<and> frequency r = frequency a \<and>
           Average_purchase_frequency r = avg_purchase_frequency (aggregate_rows (cleaned raw)) \<and>
           Average_customer_lifespan r = avg_customer_lifespan (aggregate_rows (cleaned raw))"
  using output_rows_from [OF assms] by (auto simp: row_key_def metric_row_fields)

lemma repeat_rows:
  "(\<forall>r\<in>set (output_rows raw).
      2 \<le> frequency r \<and>
      Average_purchase_frequency r = avg_purchase_frequency (aggregate_rows (cleaned raw)) \<and>
      Average_customer_lifespan r = avg_customer_lifespan (aggregate_rows (cleaned raw))) \<and>
   (\<forall>a\<in>set (aggregate_rows (cleaned raw)). 2 \<le> frequency a) \<and>
   (\<forall>c co. card (Invoice ` {x \<in> set (cleaned raw). Customer_ID x = Some c \<and> Country x = co}) \<le> 1
      \<longrightarrow> (c, co) \<notin> row_key ` set (output_rows raw)) \<and>
   (\<forall>c. card (Invoice ` {x \<in> set (cleaned raw). Customer_ID x = Some c}) \<le> 1
      \<longrightarrow> c \<notin> key_Customer_ID ` set (output_rows raw))"
proof (intro conjI ballI allI impI)
  fix a assume "a \<in> set (aggregate_rows (cleaned raw))"
  from aggregate_row [OF this] show "2 \<le> frequency a" by simp
next
  fix r assume r: "r \<in> set (output_rows raw)"
  from output_row_fields [OF r] obtain a where a: "a \<in> set (aggregate_rows (cleaned raw))"
    "frequency r = frequency a"
    "Average_purchase_frequency r = avg_purchase_frequency (aggregate_rows (cleaned raw))"
    "Average_customer_lifespan r = avg_customer_lifespan (aggregate_rows (cleaned raw))"
    by blast
  from aggregate_row [OF a(1)] a(2) show "2 \<le> frequency r" by simp
  from a show "Average_purchase_frequency r = avg_purchase_frequency (aggregate_rows (cleaned raw))"
    "Average_customer_lifespan r = avg_customer_lifespan (aggregate_rows (cleaned raw))"
    by simp_all
next
  fix c co
  assume le: "card (Invoice ` {x \<in> set (cleaned raw). Customer_ID x = Some c \<and> Country x = co}) \<le> 1"
  show "(c, co) \<notin> row_key ` set (output_rows raw)"
  proof
    assume "(c, co) \<in> row_key ` set (output_rows raw)"
    then have "(c, co) \<in> set (map row_key (output_rows raw))" by simp
    then obtain a where a: "a \<in> set (aggregate_rows (cleaned raw))" "row_key a = (c, co)"
      unfolding output_rows_keys by auto
    have "set (group_rows (cleaned raw) (c, co)) =
            {x \<in> set (cleaned raw). Customer_ID x = Some c \<and> Country x = co}"
      by (auto simp: group_rows_eq)
    with aggregate_row [OF a(1)] a(2) le show False by simp
  qed
next
  fix c
  assume le: "card (Invoice ` {x \<in> set (cleaned raw). Customer_ID x = Some c}) \<le> 1"
  show "c \<notin> key_Customer_ID ` set (output_rows raw)"
  proof
    assume "c \<in> key_Customer_ID ` set (output_rows raw)"
    then obtain r where "r \<in> set (output_rows raw)" "key_Customer_ID r = c" by auto
    then have "row_key r \<in> set (map row_key (output_rows raw))" and "fst (row_key r) = c"
      by (simp, simp add: row_key_def)
    then obtain a where a: "a \<in> set (aggregate_rows (cleaned raw))" "fst (row_key a) = c"
      unfolding output_rows_keys by auto
    obtain co where k: "row_key a = (c, co)" using a(2) by (cases "row_key a") simp
    have "Invoice ` set (group_rows (cleaned raw) (c, co))
            \<subseteq> Invoice ` {x \<in> set (cleaned raw). Customer_ID x = Some c}"
      by (auto simp: group_rows_eq)
    then have "card (Invoice ` set (group_rows (cleaned raw) (c, co)))
            \<le> card (Invoice ` {x \<in> set (cleaned raw). Customer_ID x = Some c})"
      by (intro card_mono) simp_all
    with aggregate_row [OF a(1)] k le show False by simp
  qed
qed

lemma cancellation_rows:
  "(\<forall>x\<in>set (cleaned raw).
      CHR ''C'' \<notin> set (Invoice x) \<and> (\<exists>y\<in>set raw. same_line y x \<and> CHR ''C'' \<notin> set (Invoice y))) \<and>
   ''C536379'' \<notin> Invoice ` set (cleaned raw) \<and>
   (\<forall>r\<in>set (output_rows raw).
      \<exists>g. g = filter (\<lambda>x. Customer_ID x = Some (key_Customer_ID r) \<and>
                           Country x = key_Country r) (cleaned raw) \<and>
          g \<noteq> [] \<and>
          (\<forall>x\<in>set g. CHR ''C'' \<notin> set (Invoice x)) \<and>
          monetary r = sum_list (map TotalPrice g) \<and>
          CustomerLifeSpan r =
            real_of_int (days (Max (InvoiceDate ` set g) - Min (InvoiceDate ` set g))) / 7 \<and>
          recency r = real_of_int (days (today_date - Max (InvoiceDate ` set g))) / 7 \<and>
          frequency r = card (Invoice ` set g))"
proof (intro conjI ballI)
  fix x assume "x \<in> set (cleaned raw)"
  then show "CHR ''C'' \<notin> set (Invoice x)" by (rule cleaned_no_cancellation)
next
  fix x assume "x \<in> set (cleaned raw)"
  then show "\<exists>y\<in>set raw. same_line y x \<and> CHR ''C'' \<notin> set (Invoice y)"
    by (rule cleaned_same_line)
next
  show "''C536379'' \<notin> Invoice ` set (cleaned raw)"
  proof
    assume "''C536379'' \<in> Invoice ` set (cleaned raw)"
    then obtain x where "x \<in> set (cleaned raw)" "Invoice x = ''C536379''" by auto
    with cleaned_no_cancellation [of x raw] show False by simp
  qed
next
  fix r assume "r \<in> set (output_rows raw)"
  from output_rows_from [OF this] obtain a where a: "a \<in> set (aggregate_rows (cleaned raw))"
    and r: "r = metric_row (avg_purchase_frequency (aggregate_rows (cleaned raw)))
                      (avg_customer_lifespan (aggregate_rows (cleaned raw))) a"
    by blast
  define g where "g = filter (\<lambda>x. Customer_ID x = Some (key_Customer_ID r) \<and>
                           Country x = key_Country r) (cleaned raw)"
  have g: "group_rows (cleaned raw) (row_key a) = g"
    by (simp add: row_key_def group_rows_eq g_def r metric_row_fields)
  have noC: "\<forall>x\<in>set g. CHR ''C'' \<notin> set (Invoice x)"
  proof
    fix x assume "x \<in> set g"
    then have "x \<in> set (cleaned raw)" by (simp add: g_def)
    then show "CHR ''C'' \<notin> set (Invoice x)" by (rule cleaned_no_cancellation)
  qed
  note ar = aggregate_row [OF a, unfolded g]
  have "g \<noteq> [] \<and>
          (\<forall>x\<in>set g. CHR ''C'' \<notin> set (Invoice x)) \<and>
          monetary r = sum_list (map TotalPrice g) \<and>
          CustomerLifeSpan r =
            real_of_int (days (Max (InvoiceDate ` set g) - Min (InvoiceDate ` set g))) / 7 \<and>
          recency r = real_of_int (days (today_date - Max (InvoiceDate ` set g))) / 7 \<and>
          frequency r = card (Invoice ` set g)"
    using ar noC by (simp add: r metric_row_fields)
  then show "\<exists>g. g = filter (\<lambda>x. Customer_ID x = Some (key_Customer_ID r) \<and>
                           Country x = key_Country r) (cleaned raw) \<and>
          g \<noteq> [] \<and>
          (\<forall>x\<in>set g. CHR ''C'' \<notin> set (Invoice x)) \<and>
          monetary r = sum_list (map TotalPrice g) \<and>
          CustomerLifeSpan r =
            real_of_int (days (Max (InvoiceDate ` set g) - Min (InvoiceDate ` set g))) / 7 \<and>
          recency r = real_of_int (days (today_date - Max (InvoiceDate ` set g))) / 7 \<and>
          frequency r = card (Invoice ` set g)"
    unfolding g_def [symmetric] by blast
qed

section \<open>Cell 20 on a table without groups\<close>

lemma groupby_agg_Nil_iff: "groupby_agg df = [] \<longleftrightarrow> (\<forall>x\<in>set df. Customer_ID x = None)"
proof -
  have "groupby_agg df = [] \<longleftrightarrow> set (group_keys df) = {}"
    by (simp add: groupby_agg_map)
  also have "\<dots> \<longleftrightarrow> (\<forall>x\<in>set df. \<forall>k. group_key x \<noteq> Some k)"
    by (auto simp: set_group_keys)
  also have "\<dots> \<longleftrightarrow> (\<forall>x\<in>set df. group_key x = None)"
    by (metis not_Some_eq)
  also have "\<dots> \<longleftrightarrow> (\<forall>x\<in>set df. Customer_ID x = None)"
    by (auto simp: group_key_def split: option.splits)
  finally show ?thesis .
qed

lemma aggregate_cases:
  "aggregate df =
     (if \<forall>x\<in>set df. Customer_ID x = None then Inl TypeError else Inr (aggregate_rows df))"
  by (simp add: aggregate_def cell_20_def aggregate_rows_def groupby_agg_Nil_iff)

lemma no_group_cleaned: "(\<forall>x\<in>set (cleaned raw). Customer_ID x = None) \<longleftrightarrow> cleaned raw = []"
proof
  assume a: "\<forall>x\<in>set (cleaned raw). Customer_ID x = None"
  show "cleaned raw = []"
  proof (rule ccontr)
    assume "cleaned raw \<noteq> []"
    then obtain x where x: "x \<in> set (cleaned raw)" by (cases "cleaned raw") auto
    with a cleaned_Customer_ID [OF x] show False by simp
  qed
qed simp

lemma aggregate_cleaned:
  "aggregate (cleaned raw) =
     (if cleaned raw = [] then Inl TypeError else Inr (aggregate_rows (cleaned raw)))"
  by (simp add: aggregate_cases no_group_cleaned)

lemma pipeline_cases:
  "pipeline raw = (if cleaned raw = [] then Inl TypeError else Inr (output_rows raw))"
  by (simp add: pipeline_def aggregate_cleaned output_rows_def)

section \<open>The aggregated table\<close>

text \<open>
  C2. Cells 18 to 20 raise \<open>TypeError\<close> when the table has no group (no row with a
  Customer ID). Otherwise the aggregated table has one row for each pair (Customer
  ID, Country) whose rows carry more than one distinct invoice, and no other row.
  On the rows \<open>g\<close> of its pair, a row has: monetary = the sum of TotalPrice;
  CustomerLifeSpan = the whole days between the latest and the earliest InvoiceDate,
  divided by 7, which is 0 when the group has one invoice date; recency = the whole
  days from the latest InvoiceDate to \<open>today_date\<close>, divided by 7; frequency = the
  number of distinct Invoice values.
\<close>

theorem aggregate_per_group:
  "if \<forall>x\<in>set df. Customer_ID x = None then aggregate df = Inl TypeError
   else (\<exists>a. aggregate df = Inr a \<and>
     distinct (map row_key a) \<and>
     row_key ` set a =
       {(c, co). 1 < card (Invoice ` {x \<in> set df. Customer_ID x = Some c \<and> Country x = co})} \<and>
     (\<forall>r\<in>set a.
        \<exists>g. g = filter (\<lambda>x. Customer_ID x = Some (key_Customer_ID r) \<and>
                             Country x = key_Country r) df \<and>
            g \<noteq> [] \<and>
            monetary r = sum_list (map TotalPrice g) \<and>
            CustomerLifeSpan r =
              real_of_int ((Max (InvoiceDate ` set g) - Min (InvoiceDate ` set g)) div ns_per_day) / 7 \<and>
            (card (InvoiceDate ` set g) = 1 \<longrightarrow> CustomerLifeSpan r = 0) \<and>
            recency r =
              real_of_int ((today_date - Max (InvoiceDate ` set g)) div ns_per_day) / 7 \<and>
            frequency r = card (Invoice ` set g)))"
proof (cases "\<forall>x\<in>set df. Customer_ID x = None")
  case True
  then show ?thesis by (simp add: aggregate_cases)
next
  case False
  then have e: "aggregate df = Inr (aggregate_rows df)"
    by (simp add: aggregate_cases)
  show ?thesis
    unfolding if_not_P [OF False] e
    by (rule exI [of _ "aggregate_rows df"], rule conjI, rule refl,
        rule aggregate_rows_per_group)
qed

text \<open>On the example table the one surviving group is that of customer 100.\<close>

theorem aggregate_per_group_witness:
  "aggregate (cleaned retail_example) =
     Inr [\<lparr>key_Customer_ID = 100, key_Country = ''others'', monetary = 300,
           CustomerLifeSpan = 2, recency = 1, frequency = 3\<rparr>] \<and>
   (\<exists>g. g = filter (\<lambda>x. Customer_ID x = Some 100 \<and> Country x = ''others'')
                  (cleaned retail_example) \<and>
        g \<noteq> [] \<and>
        sum_list (map TotalPrice g) = 300 \<and>
        real_of_int ((Max (InvoiceDate ` set g) - Min (InvoiceDate ` set g)) div ns_per_day) / 7 = 2 \<and>
        real_of_int ((today_date - Max (InvoiceDate ` set g)) div ns_per_day) / 7 = 1 \<and>
        card (Invoice ` set g) = 3)"
proof -
  have a: "aggregate (cleaned retail_example) =
     Inr [\<lparr>key_Customer_ID = 100, key_Country = ''others'', monetary = 300,
           CustomerLifeSpan = 2, recency = 1, frequency = 3\<rparr>]"
    by code_simp
  have c: "\<not> (\<forall>x\<in>set (cleaned retail_example). Customer_ID x = None)"
    by code_simp
  show ?thesis
    using aggregate_per_group [of "cleaned retail_example"]
    unfolding if_not_P [OF c]
    by (simp add: a)
qed

section \<open>The scenario of one repeat customer\<close>

text \<open>
  C7. The scenario of customer 100. In the table that cell 18 groups, let customer
  100 appear under one country with 3 distinct invoices, the earliest and the latest
  14 whole days apart, the latest 7 whole days before \<open>today_date\<close>, and line
  totals that sum to 300; let no other group have more than one invoice. Then the
  notebook runs to its end and its table is the single row with frequency 3,
  CustomerLifeSpan 2, recency 1, monetary 300, Average Purchase Value 100, Average
  purchase frequency 3, Customer Value 300, Average customer lifespan 2 and CLTV
  600.
\<close>

theorem scenario_customer_100:
  fixes raw :: "txn list" and co :: string
  defines "t \<equiv> cleaned raw"
  defines "g \<equiv> filter (\<lambda>x. Customer_ID x = Some 100) t"
  assumes country: "\<forall>x\<in>set g. Country x = co"
    and invoices: "card (Invoice ` set g) = 3"
    and span: "days (Max (InvoiceDate ` set g) - Min (InvoiceDate ` set g)) = 14"
    and last: "days (today_date - Max (InvoiceDate ` set g)) = 7"
    and total: "sum_list (map TotalPrice g) = 300"
    and others: "\<forall>x\<in>set t. Customer_ID x \<noteq> Some 100 \<longrightarrow>
        card (Invoice ` set (filter (\<lambda>y. Customer_ID y = Customer_ID x \<and> Country y = Country x) t)) \<le> 1"
  shows "pipeline raw =
    Inr [\<lparr>key_Customer_ID = 100, key_Country = co, monetary = 300,
          CustomerLifeSpan = 2, recency = 1, frequency = 3,
          Average_Purchase_Value = Fin 100, Average_purchase_frequency = Fin 3,
          Customer_Value = Fin 300, Average_customer_lifespan = Fin 2,
          CLTV = Fin 600\<rparr>]"
proof -
  have rows: "output_rows raw =
    [\<lparr>key_Customer_ID = 100, key_Country = co, monetary = 300,
      CustomerLifeSpan = 2, recency = 1, frequency = 3,
      Average_Purchase_Value = Fin 100, Average_purchase_frequency = Fin 3,
      Customer_Value = Fin 300, Average_customer_lifespan = Fin 2,
      CLTV = Fin 600\<rparr>]"
    using country invoices span last total others unfolding g_def t_def
    by (rule scenario_rows)
  from invoices have "set g \<noteq> {}" by auto
  then have "cleaned raw \<noteq> []" by (auto simp: g_def t_def)
  with rows show ?thesis by (simp add: pipeline_cases)
qed

text \<open>
  The example table meets the scenario: after cleaning, customer 100 is left with
  the three invoices of 100 each, and customer 200 with one invoice.
\<close>

theorem scenario_customer_100_witness:
  "pipeline retail_example =
    Inr [\<lparr>key_Customer_ID = 100, key_Country = ''others'', monetary = 300,
          CustomerLifeSpan = 2, recency = 1, frequency = 3,
          Average_Purchase_Value = Fin 100, Average_purchase_frequency = Fin 3,
          Customer_Value = Fin 300, Average_customer_lifespan = Fin 2,
          CLTV = Fin 600\<rparr>]"
proof (rule scenario_customer_100)
  let ?g = "filter (\<lambda>x. Customer_ID x = Some 100) (cleaned retail_example)"
  show "\<forall>x\<in>set ?g. Country x = ''others''"
    by code_simp
  show "card (Invoice ` set ?g) = 3"
    by code_simp
  show "days (Max (InvoiceDate ` set ?g) - Min (InvoiceDate ` set ?g)) = 14"
    by code_simp
  show "days (today_date - Max (InvoiceDate ` set ?g)) = 7"
    by code_simp
  show "sum_list (map TotalPrice ?g) = 300"
    by code_simp
  show "\<forall>x\<in>set (cleaned retail_example). Customer_ID x \<noteq> Some 100 \<longrightarrow>
        card (Invoice ` set (filter (\<lambda>y. Customer_ID y = Customer_ID x \<and> Country y = Country x)
          (cleaned retail_example))) \<le> 1"
    by code_simp
qed

section \<open>The frequency filter\<close>

text \<open>
  C3. When no row survives cleaning the notebook stops in cell 20 with
  \<open>TypeError\<close>. Otherwise it runs to its end, and cell 20 drops the groups with
  frequency 1 or less before cells 22 and 24 compute the population-wide averages:
  every row of the notebook's table has frequency at least 2, and its two averages
  are those of the filtered table, all of whose rows have frequency at least 2. A
  (Customer ID, Country) group with at most one distinct invoice has no row in the
  output, and a customer with at most one distinct invoice in the cleaned table does
  not occur in the output at all.
\<close>

theorem repeat_customers_only:
  "if cleaned raw = [] then pipeline raw = Inl TypeError
   else (\<exists>a out. aggregate (cleaned raw) = Inr a \<and> pipeline raw = Inr out \<and>
     (\<forall>r\<in>set out.
        2 \<le> frequency r \<and>
        Average_purchase_frequency r = avg_purchase_frequency a \<and>
        Average_customer_lifespan r = avg_customer_lifespan a) \<and>
     (\<forall>r\<in>set a. 2 \<le> frequency r) \<and>
     (\<forall>c co. card (Invoice ` {x \<in> set (cleaned raw). Customer_ID x = Some c \<and> Country x = co}) \<le> 1
        \<longrightarrow> (c, co) \<notin> row_key ` set out) \<and>
     (\<forall>c. card (Invoice ` {x \<in> set (cleaned raw). Customer_ID x = Some c}) \<le> 1
        \<longrightarrow> c \<notin> key_Customer_ID ` set out))"
proof (cases "cleaned raw = []")
  case True
  then show ?thesis by (simp add: pipeline_cases)
next
  case False
  have a: "aggregate (cleaned raw) = Inr (aggregate_rows (cleaned raw))"
    and p: "pipeline raw = Inr (output_rows raw)"
    using False by (simp_all add: aggregate_cleaned pipeline_cases)
  show ?thesis
    unfolding if_not_P [OF False] a p
    by (rule exI [of _ "aggregate_rows (cleaned raw)"], rule exI [of _ "output_rows raw"],
        rule conjI, rule refl, rule conjI, rule refl, rule repeat_rows)
qed

text \<open>
  In the example table customer 200 has one invoice and is absent from the output,
  which is not empty.
\<close>

theorem repeat_customers_only_witness:
  "cleaned retail_example \<noteq> [] \<and>
   card (Invoice ` {x \<in> set (cleaned retail_example). Customer_ID x = Some 200}) = 1 \<and>
   (\<exists>out. pipeline retail_example = Inr out \<and> out \<noteq> [] \<and>
      list_all (\<lambda>r. 2 \<le> frequency r) out \<and>
      200 \<notin> key_Customer_ID ` set out)"
proof -
  have one: "card (Invoice ` {x \<in> set (cleaned retail_example). Customer_ID x = Some 200}) = 1"
    by code_simp
  have ne: "cleaned retail_example \<noteq> []"
    by code_simp
  have "pipeline retail_example =
    Inr [\<lparr>key_Customer_ID = 100, key_Country = ''others'', monetary = 300,
          CustomerLifeSpan = 2, recency = 1, frequency = 3,
          Average_Purchase_Value = Fin 100, Average_purchase_frequency = Fin 3,
          Customer_Value = Fin 300, Average_customer_lifespan = Fin 2,
          CLTV = Fin 600\<rparr>]"
    by code_simp
  then have out: "\<exists>out. pipeline retail_example = Inr out \<and> out \<noteq> []"
    by simp
  from repeat_customers_only [of retail_example] obtain a out where
    "pipeline retail_example = Inr out"
    "\<forall>r\<in>set out. 2 \<le> frequency r \<and>
        Average_purchase_frequency r = avg_purchase_frequency a \<and>
        Average_customer_lifespan r = avg_customer_lifespan a"
    "\<forall>c. card (Invoice ` {x \<in> set (cleaned retail_example). Customer_ID x = Some c}) \<le> 1
        \<longrightarrow> c \<notin> key_Customer_ID ` set out"
    unfolding if_not_P [OF ne] by blast
  with one out have "pipeline retail_example = Inr out \<and> out \<noteq> [] \<and>
      list_all (\<lambda>r. 2 \<le> frequency r) out \<and>
      200 \<notin> key_Customer_ID ` set out"
    by (auto simp: list_all_iff)
  with one ne show ?thesis by blast
qed

section \<open>An empty population\<close>

text \<open>
  Counterexample to C6 as stated (an empty population is an error of the metric
  engine). A customer with a single invoice forms a group, which cell 20 drops; the
  table that reaches cell 21 is empty, cells 22 and 24 evaluate 0 / 0 to NaN (numpy
  raises nothing on a zero divisor), and the notebook ends with the empty table.
\<close>

theorem empty_population_no_error_counterexample:
  "aggregate (cleaned one_off_example) = Inr [] \<and>
   pipeline one_off_example = Inr [] \<and>
   metric_engine [] = [] \<and>
   avg_purchase_frequency [] = NaN \<and>
   avg_customer_lifespan [] = NaN"
  by code_simp

text \<open>
  C6, as amended. If at least one group exists and none survives the frequency
  filter, the metric engine raises no error: both population-wide divisions are
  0 / 0 = NaN, the NaN is broadcast to no row, and the notebook's table is empty.
  If no row survives cleaning, so that there is no group at all, the notebook stops
  before the metric engine, in cell 20, with \<open>TypeError\<close>.
\<close>

theorem empty_population_returns_empty:
  "(groupby_agg (cleaned raw) \<noteq> [] \<and> frequency_filter (groupby_agg (cleaned raw)) = [] \<longrightarrow>
      aggregate (cleaned raw) = Inr [] \<and> pipeline raw = Inr [] \<and>
      avg_purchase_frequency [] = NaN \<and> avg_customer_lifespan [] = NaN) \<and>
   (cleaned raw = [] \<longrightarrow> aggregate (cleaned raw) = Inl TypeError \<and> pipeline raw = Inl TypeError)"
  by (simp add: pipeline_def aggregate_def cell_20_def to_weeks_def metric_engine_def
        avg_purchase_frequency_def avg_customer_lifespan_def np_div_def nunique_def
        groupby_agg_Nil_iff)

theorem empty_population_returns_empty_witness:
  "groupby_agg (cleaned one_off_example) \<noteq> [] \<and>
   frequency_filter (groupby_agg (cleaned one_off_example)) = [] \<and>
   aggregate (cleaned one_off_example) = Inr [] \<and> pipeline one_off_example = Inr [] \<and>
   cleaned [] = [] \<and> pipeline [] = Inl TypeError"
proof -
  have g: "groupby_agg (cleaned one_off_example) \<noteq> []"
    "frequency_filter (groupby_agg (cleaned one_off_example)) = []"
    by code_simp+
  have e: "cleaned [] = []"
    by code_simp
  from empty_population_returns_empty [of one_off_example] empty_population_returns_empty [of "[]"]
    g e show ?thesis by simp
qed

section \<open>Negative quantities\<close>

text \<open>
  C10. None of the three row filters looks at Quantity: each commutes with any
  rewriting of that column. And there is an input with a line of negative quantity,
  positive price, no cancellation mark and no missing field, which survives
  cleaning with a negative TotalPrice that enters its customer's monetary sum, and an
  output row with monetary below 0 and CLTV below 0.
\<close>

theorem negative_quantity_survives:
  "(\<forall>df f. dropna (map (\<lambda>r. r\<lparr>Quantity := f r\<rparr>) df) = map (\<lambda>r. r\<lparr>Quantity := f r\<rparr>) (dropna df)) \<and>
   (\<forall>df f. drop_cancellations (map (\<lambda>r. r\<lparr>Quantity := f r\<rparr>) df) =
             map (\<lambda>r. r\<lparr>Quantity := f r\<rparr>) (drop_cancellations df)) \<and>
   (\<forall>df f. drop_nonpositive_price (map (\<lambda>r. r\<lparr>Quantity := f r\<rparr>) df) =
             map (\<lambda>r. r\<lparr>Quantity := f r\<rparr>) (drop_nonpositive_price df)) \<and>
   (\<exists>raw x out. x \<in> set raw \<and> Quantity x < 0 \<and> 0 < Price x \<and> CHR ''C'' \<notin> set (Invoice x) \<and>
      Description x \<noteq> None \<and> Customer_ID x \<noteq> None \<and>
      (\<exists>y\<in>set (cleaned raw). Invoice y = Invoice x \<and> Quantity y = Quantity x \<and>
          TotalPrice y = Price x * Quantity x \<and> TotalPrice y < 0) \<and>
      pipeline raw = Inr out \<and>
      (\<exists>r\<in>set out. \<exists>v.
          monetary r =
            sum_list (map TotalPrice (filter (\<lambda>y. Customer_ID y = Customer_ID x) (cleaned raw))) \<and>
          monetary r < 0 \<and> CLTV r = Fin v \<and> v < 0))"
proof (intro conjI allI)
  let ?x = "line ''536380'' (- 5) (15298 * ns_per_day) 2 (Some 300) ''Spain''"
  let ?out = "[\<lparr>key_Customer_ID = 300, key_Country = ''others'', monetary = - 16,
      CustomerLifeSpan = 1, recency = 2, frequency = 2,
      Average_Purchase_Value = Fin (- 8), Average_purchase_frequency = Fin 2,
      Customer_Value = Fin (- 16), Average_customer_lifespan = Fin 1,
      CLTV = Fin (- 16)\<rparr>]"
  have c: "cleaned returns_example =
    [txn.extend (line ''536380'' (- 5) (15298 * ns_per_day) 2 (Some 300) ''others'') (etxn.fields (- 10)),
     txn.extend (line ''536381'' (- 3) (15305 * ns_per_day) 2 (Some 300) ''others'') (etxn.fields (- 6))]"
    by code_simp
  have p: "pipeline returns_example = Inr ?out"
    by code_simp
  have "?x \<in> set returns_example \<and> Quantity ?x < 0 \<and> 0 < Price ?x \<and>
      CHR ''C'' \<notin> set (Invoice ?x) \<and>
      Description ?x \<noteq> None \<and> Customer_ID ?x \<noteq> None \<and>
      (\<exists>y\<in>set (cleaned returns_example). Invoice y = Invoice ?x \<and> Quantity y = Quantity ?x \<and>
          TotalPrice y = Price ?x * Quantity ?x \<and> TotalPrice y < 0) \<and>
      pipeline returns_example = Inr ?out \<and>
      (\<exists>r\<in>set ?out. \<exists>v.
          monetary r =
            sum_list (map TotalPrice (filter (\<lambda>y. Customer_ID y = Customer_ID ?x) (cleaned returns_example))) \<and>
          monetary r < 0 \<and> CLTV r = Fin v \<and> v < 0)"
    unfolding c p
    by (simp add: returns_example_def line_def txn.defs etxn.defs)
  then show "\<exists>raw x out. x \<in> set raw \<and> Quantity x < 0 \<and> 0 < Price x \<and> CHR ''C'' \<notin> set (Invoice x) \<and>
      Description x \<noteq> None \<and> Customer_ID x \<noteq> None \<and>
      (\<exists>y\<in>set (cleaned raw). Invoice y = Invoice x \<and> Quantity y = Quantity x \<and>
          TotalPrice y = Price x * Quantity x \<and> TotalPrice y < 0) \<and>
      pipeline raw = Inr out \<and>
      (\<exists>r\<in>set out. \<exists>v.
          monetary r =
            sum_list (map TotalPrice (filter (\<lambda>y. Customer_ID y = Customer_ID x) (cleaned raw))) \<and>
          monetary r < 0 \<and> CLTV r = Fin v \<and> v < 0)"
    by blast
qed (simp_all add: dropna_def drop_cancellations_def drop_nonpositive_price_def filter_map o_def)

section \<open>Cancellation invoices\<close>

lemma replace_with_thresholds_within:
  assumes th: "outlier_thresholds df v = Some (low, up)"
    and within: "\<forall>r\<in>set df. low \<le> col v r \<and> col v r \<le> up"
  shows "replace_with_thresholds df v = df"
proof -
  have le: "low \<le> up" using th by (rule outlier_thresholds_ordered)
  have "map (\<lambda>r. set_col v (clip low up (col v r)) r) df = map (\<lambda>r. r) df"
    by (rule map_cong) (simp_all add: set_col_fixed clip_id_iff [OF le] within)
  then show ?thesis unfolding replace_with_thresholds_map [OF th] by simp
qed

lemma fold_rare_countries_small:
  assumes "length df < 1000"
  shows "fold_rare_countries df = map (\<lambda>r. r\<lparr>Country := ''others''\<rparr>) df"
proof -
  have "count_list (map Country df) c < 1000" for c
    using count_le_length [of "map Country df" c] assms by simp
  then show ?thesis by (simp add: fold_rare_countries_map)
qed

lemma Price_spike: "\<forall>r\<in>set (spike_table x). col Price_col r = 2"
  by (auto simp: spike_table_def line_def)

lemma cap_outliers_spike:
  assumes "1 \<le> x"
  shows "cap_outliers (spike_table x) = spike_table (1 + 39 / 40 * (x - 1))"
  unfolding cap_outliers_def replace_with_thresholds_constant [OF Price_spike]
  by (rule replace_spike [OF assms])

lemma cleaned_spike:
  assumes "1 \<le> x"
  shows "cleaned (spike_table x) = spike_cleaned (1 + 39 / 40 * (x - 1))"
proof -
  have l: "length (spike_table (1 + 39 / 40 * (x - 1))) < 1000"
    by (simp add: spike_table_def)
  show ?thesis
    unfolding cleaned_def dropna_spike cap_outliers_spike [OF assms] fold_rare_countries_small [OF l]
    by (simp add: spike_table_def spike_cleaned_def line_def drop_cancellations_def
          drop_nonpositive_price_def add_TotalPrice_def)
qed

lemma dropna_spike_cancel: "dropna spike_cancel_example = spike_cancel_example"
  by (simp add: dropna_def spike_cancel_example_def spike_table_def line_def)

lemma Quantity_spike_cancel:
  "map (col Quantity_col) spike_cancel_example = replicate 61 1 @ [101, 101]"
  by (simp add: spike_cancel_example_def spike_table_def line_def)

lemma thresholds_spike_cancel:
  "outlier_thresholds spike_cancel_example Quantity_col = Some (- 149, 251)"
proof -
  have srt: "sorted (replicate 61 (1::real) @ [101, 101])" by (simp add: sorted_append)
  have s: "sort (replicate 61 (1::real) @ [101, 101]) = replicate 61 1 @ [101, 101]"
    using srt by (rule sorted_sort_id)
  have f: "\<lfloor>62 / 100 :: real\<rfloor> = 0" "\<lfloor>6138 / 100 :: real\<rfloor> = 61" by simp_all
  have q1: "quantile (replicate 61 1 @ [101, 101]) (1 / 100) = Some 1"
    by (simp add: quantile_def s f nth_append)
  have q3: "quantile (replicate 61 1 @ [101, 101]) (99 / 100) = Some 101"
    by (simp add: quantile_def s f nth_append)
  show ?thesis
    by (simp add: outlier_thresholds_def Quantity_spike_cancel q1 q3)
qed

lemma cap_outliers_spike_cancel: "cap_outliers spike_cancel_example = spike_cancel_example"
proof -
  have p: "\<forall>r\<in>set spike_cancel_example. col Price_col r = 2"
    by (auto simp: spike_cancel_example_def spike_table_def line_def)
  have q: "\<forall>r\<in>set spike_cancel_example. - 149 \<le> col Quantity_col r \<and> col Quantity_col r \<le> 251"
    by (auto simp: spike_cancel_example_def spike_table_def line_def)
  show ?thesis
    unfolding cap_outliers_def replace_with_thresholds_constant [OF p]
    by (rule replace_with_thresholds_within [OF thresholds_spike_cancel q])
qed

lemma cleaned_spike_cancel: "cleaned spike_cancel_example = spike_cleaned 101"
proof -
  have l: "length spike_cancel_example < 1000"
    by (simp add: spike_cancel_example_def spike_table_def)
  show ?thesis
    unfolding cleaned_def dropna_spike_cancel cap_outliers_spike_cancel
      fold_rare_countries_small [OF l]
    by (simp add: spike_cancel_example_def spike_table_def spike_cleaned_def line_def
          drop_cancellations_def drop_nonpositive_price_def add_TotalPrice_def)
qed

lemma distinct_singleton_set:
  assumes "distinct ks" "set ks = {k}"
  shows "ks = [k]"
proof -
  have "length ks = card (set ks)" using assms(1) by (simp add: distinct_card)
  with assms(2) have "length ks = 1" by simp
  then obtain a where "ks = [a]" by (auto simp: length_Suc_conv)
  with assms(2) show ?thesis by simp
qed

lemma aggregate_rows_single_key:
  assumes ne: "t \<noteq> []" and key: "\<forall>x\<in>set t. group_key x = Some k"
    and rep: "1 < card (Invoice ` set t)"
  shows "aggregate_rows t = [weeks_row (group_row t k)] \<and> group_rows t k = t \<and>
         k \<in> set (group_keys t)"
proof -
  from ne obtain x where "x \<in> set t" by (cases t) auto
  with key have "set (group_keys t) = {k}" by (auto simp: set_group_keys)
  with distinct_group_keys have gk: "group_keys t = [k]" by (rule distinct_singleton_set)
  then have k: "k \<in> set (group_keys t)" by simp
  have gr: "group_rows t k = t"
    unfolding group_rows_def using key by (intro filter_True) simp
  have "frequency (group_row t k) = card (Invoice ` set t)"
    by (simp add: group_row_fields [OF k] gr)
  with rep have "aggregate_rows t = [weeks_row (group_row t k)]"
    by (simp add: aggregate_eq gk)
  with gr k show ?thesis by simp
qed

lemma aggregate_rows_spike_cleaned:
  "aggregate_rows (spike_cleaned x) =
     [\<lparr>key_Customer_ID = 100, key_Country = ''others'', monetary = 122 + 2 * x,
       CustomerLifeSpan = 1, recency = 2, frequency = 2\<rparr>]"
proof -
  let ?t = "spike_cleaned x" and ?k = "(100::int, ''others'')"
  have ne: "?t \<noteq> []" by (simp add: spike_cleaned_def)
  have key: "\<forall>r\<in>set ?t. group_key r = Some ?k"
    by (auto simp: spike_cleaned_def group_key_def line_def txn.defs etxn.defs)
  have inv: "Invoice ` set ?t = {''536365'', ''536366''}"
    by (auto simp: spike_cleaned_def line_def txn.defs etxn.defs)
  have dates: "InvoiceDate ` set ?t = {15298 * ns_per_day, 15305 * ns_per_day}"
    by (auto simp: spike_cleaned_def line_def txn.defs etxn.defs)
  have total: "sum_list (map TotalPrice ?t) = 122 + 2 * x"
    by (simp add: spike_cleaned_def line_def txn.defs etxn.defs sum_list_replicate)
  have rep: "1 < card (Invoice ` set ?t)" by (simp add: inv)
  from aggregate_rows_single_key [OF ne key rep]
  have a: "aggregate_rows ?t = [weeks_row (group_row ?t ?k)]" and gr: "group_rows ?t ?k = ?t"
    and k: "?k \<in> set (group_keys ?t)"
    by simp_all
  have mx: "Max {15298 * ns_per_day, 15305 * ns_per_day} = 15305 * ns_per_day"
    and mn: "Min {15298 * ns_per_day, 15305 * ns_per_day} = 15298 * ns_per_day"
    by (simp_all add: ns_per_day_def)
  have row: "weeks_row (group_row ?t ?k) =
     \<lparr>key_Customer_ID = 100, key_Country = ''others'', monetary = 122 + 2 * x,
       CustomerLifeSpan = 1, recency = 2, frequency = 2\<rparr>"
    by (rule agg_row.equality)
       (simp_all add: weeks_row_fields group_row_fields [OF k] gr inv dates total mx mn
          days_def today_date_def ns_per_day_def)
  show ?thesis unfolding a row ..
qed

lemma pipeline_spike_cleaned:
  assumes "cleaned raw = spike_cleaned x"
  shows "pipeline raw =
     Inr [\<lparr>key_Customer_ID = 100, key_Country = ''others'', monetary = 122 + 2 * x,
           CustomerLifeSpan = 1, recency = 2, frequency = 2,
           Average_Purchase_Value = Fin (61 + x), Average_purchase_frequency = Fin 2,
           Customer_Value = Fin (122 + 2 * x), Average_customer_lifespan = Fin 1,
           CLTV = Fin (122 + 2 * x)\<rparr>]"
proof -
  have "cleaned raw \<noteq> []" by (simp add: assms spike_cleaned_def)
  then have "pipeline raw = Inr (metric_engine (aggregate_rows (spike_cleaned x)))"
    by (simp add: pipeline_cases output_rows_def assms)
  then show ?thesis
    unfolding aggregate_rows_spike_cleaned
    by (simp add: metric_engine_def metric_row_def avg_purchase_frequency_def
          avg_customer_lifespan_def np_div_def nunique_def agg_row.defs cltv_row.defs
          Let_def field_simps)
qed

text \<open>
  Counterexample to C8 as stated (a cancellation line never contributes to any
  customer aggregate or output row). Cells 8 and 9 run before cell 12, on a table
  that still holds the cancellation lines. Customer 100 has sixty-one lines of
  quantity 1 and one of quantity 101, at price 2: capping moves the 101 to 98.5 and
  the customer's monetary is 319. With one more line, of another customer and on
  the cancellation invoice C536379, the 99th percentile of Quantity rises to 101,
  nothing is capped, and the monetary of customer 100 is 324.
\<close>

theorem cancellation_changes_output_counterexample:
  "spike_cancel_example =
     spike_table 101 @ [line ''C536379'' 101 (15305 * ns_per_day) 2 (Some 200) ''France''] \<and>
   pipeline (spike_table 101) =
     Inr [\<lparr>key_Customer_ID = 100, key_Country = ''others'', monetary = 319,
           CustomerLifeSpan = 1, recency = 2, frequency = 2,
           Average_Purchase_Value = Fin (319 / 2), Average_purchase_frequency = Fin 2,
           Customer_Value = Fin 319, Average_customer_lifespan = Fin 1,
           CLTV = Fin 319\<rparr>] \<and>
   pipeline spike_cancel_example =
     Inr [\<lparr>key_Customer_ID = 100, key_Country = ''others'', monetary = 324,
           CustomerLifeSpan = 1, recency = 2, frequency = 2,
           Average_Purchase_Value = Fin 162, Average_purchase_frequency = Fin 2,
           Customer_Value = Fin 324, Average_customer_lifespan = Fin 1,
           CLTV = Fin 324\<rparr>]"
proof -
  have c: "cleaned (spike_table 101) = spike_cleaned (197 / 2)"
    using cleaned_spike [of 101] by simp
  show ?thesis
    using pipeline_spike_cleaned [OF c] pipeline_spike_cleaned [OF cleaned_spike_cancel]
    by (simp add: spike_cancel_example_def)
qed

text \<open>
  C8, as amended. No line whose Invoice contains the character C is among the rows
  that cell 18 groups: every grouped row is a line item of the input without a C in
  its Invoice, and invoice C536379 is never among them. When the notebook runs to
  its end, every row of its table takes its monetary, CustomerLifeSpan, recency and
  frequency from the grouped rows of its key alone, none of which is a
  cancellation. A cancellation line does enter the percentiles of cell 8 and the
  country counts of cell 9, which are taken before cell 12 drops it, and through
  them it can change the capped values and the country labels of other rows.
\<close>

theorem cancellations_excluded:
  "(\<forall>x\<in>set (cleaned raw).
      CHR ''C'' \<notin> set (Invoice x) \<and> (\<exists>y\<in>set raw. same_line y x \<and> CHR ''C'' \<notin> set (Invoice y))) \<and>
   ''C536379'' \<notin> Invoice ` set (cleaned raw) \<and>
   (if cleaned raw = [] then pipeline raw = Inl TypeError
    else (\<exists>out. pipeline raw = Inr out \<and>
      (\<forall>r\<in>set out.
         \<exists>g. g = filter (\<lambda>x. Customer_ID x = Some (key_Customer_ID r) \<and>
                              Country x = key_Country r) (cleaned raw) \<and>
             g \<noteq> [] \<and>
             (\<forall>x\<in>set g. CHR ''C'' \<notin> set (Invoice x)) \<and>
             monetary r = sum_list (map TotalPrice g) \<and>
             CustomerLifeSpan r =
               real_of_int (days (Max (InvoiceDate ` set g) - Min (InvoiceDate ` set g))) / 7 \<and>
             recency r = real_of_int (days (today_date - Max (InvoiceDate ` set g))) / 7 \<and>
             frequency r = card (Invoice ` set g))))"
proof (intro conjI)
  note rows = cancellation_rows [of raw]
  from rows show "\<forall>x\<in>set (cleaned raw).
      CHR ''C'' \<notin> set (Invoice x) \<and> (\<exists>y\<in>set raw. same_line y x \<and> CHR ''C'' \<notin> set (Invoice y))"
    by (rule conjunct1)
  from rows show "''C536379'' \<notin> Invoice ` set (cleaned raw)"
    by (rule conjunct2 [THEN conjunct1])
  show "if cleaned raw = [] then pipeline raw = Inl TypeError
    else (\<exists>out. pipeline raw = Inr out \<and>
      (\<forall>r\<in>set out.
         \<exists>g. g = filter (\<lambda>x. Customer_ID x = Some (key_Customer_ID r) \<and>
                              Country x = key_Country r) (cleaned raw) \<and>
             g \<noteq> [] \<and>
             (\<forall>x\<in>set g. CHR ''C'' \<notin> set (Invoice x)) \<and>
             monetary r = sum_list (map TotalPrice g) \<and>
             CustomerLifeSpan r =
               real_of_int (days (Max (InvoiceDate ` set g) - Min (InvoiceDate ` set g))) / 7 \<and>
             recency r = real_of_int (days (today_date - Max (InvoiceDate ` set g))) / 7 \<and>
             frequency r = card (Invoice ` set g)))"
  proof (cases "cleaned raw = []")
    case True
    then show ?thesis by (simp add: pipeline_cases)
  next
    case False
    then have p: "pipeline raw = Inr (output_rows raw)" by (simp add: pipeline_cases)
    show ?thesis
      unfolding if_not_P [OF False] p
      by (rule exI [of _ "output_rows raw"], rule conjI, rule refl,
          rule rows [THEN conjunct2, THEN conjunct2])
  qed
qed

text \<open>
  The example table holds the cancellation C536379 of customer 100; the cleaned
  table does not, and the customer's row counts 3 invoices worth 300.
\<close>

theorem cancellations_excluded_witness:
  "''C536379'' \<in> Invoice ` set retail_example \<and>
   ''C536379'' \<notin> Invoice ` set (cleaned retail_example) \<and>
   list_all (\<lambda>x. CHR ''C'' \<notin> set (Invoice x)) (cleaned retail_example) \<and>
   (\<exists>out. pipeline retail_example = Inr out \<and>
      map monetary out = [300] \<and> map frequency out = [3])"
proof -
  have a: "''C536379'' \<in> Invoice ` set retail_example"
    by (simp add: retail_example_def line_def)
  have p: "pipeline retail_example =
    Inr [\<lparr>key_Customer_ID = 100, key_Country = ''others'', monetary = 300,
          CustomerLifeSpan = 2, recency = 1, frequency = 3,
          Average_Purchase_Value = Fin 100, Average_purchase_frequency = Fin 3,
          Customer_Value = Fin 300, Average_customer_lifespan = Fin 2,
          CLTV = Fin 600\<rparr>]"
    by code_simp
  show ?thesis
    using cancellations_excluded [of retail_example] a
    by (simp add: list_all_iff p)
qed

end
